theory Spec2Isabelle
  imports Complex_Main "HOL-Library.Product_Lexorder" "HOL-Library.List_Lexorder"
begin

section \<open>Values, errors and tables\<close>

text \<open>
  A table cell is a number or a text.  Numeric, boolean (1 and 0) and time values are
  \<open>Num\<close>; an instant is held as its number of seconds.  A text that stands in a column
  read as a time or as a number is a text that does not parse as one.
\<close>

datatype cell = Num real | Str string

datatype error = KeyError string | ValueError string | ZeroDivisionError | IndexError

type_synonym row = "string \<Rightarrow> cell"

text \<open>
  A pandas DataFrame: the column labels in order, and the rows.  A row gives a cell for
  every label; only the labels listed in \<open>columns\<close> are ever read.
\<close>

record dataframe =
  columns :: "string list"
  rows :: "row list"

text \<open>The order in which pandas sorts the values of one column.\<close>

fun cell_key :: "cell \<Rightarrow> nat \<times> real \<times> nat list" where
  "cell_key (Num x) = (0, x, [])"
| "cell_key (Str s) = (1, 0, map of_char s)"

text \<open>
  The instant or number held by a cell.  The columns it is read from have passed
  \<open>to_datetime\<close>, which leaves no text in them.
\<close>

fun num_of :: "cell \<Rightarrow> real" where
  "num_of (Num x) = x"
| "num_of (Str s) = 0"

fun is_text :: "cell \<Rightarrow> bool" where
  "is_text (Num x) = False"
| "is_text (Str s) = True"

text \<open>Python's \<open>bool(v)\<close>.\<close>

fun truthy :: "cell \<Rightarrow> bool" where
  "truthy (Num x) = (x \<noteq> 0)"
| "truthy (Str s) = (s \<noteq> [])"

text \<open>\<open>name and name in df.columns\<close> for an optional column name.\<close>

definition col_given :: "string option \<Rightarrow> dataframe \<Rightarrow> bool" where
  "col_given c df = (case c of None \<Rightarrow> False | Some n \<Rightarrow> n \<noteq> [] \<and> n \<in> set (columns df))"

text \<open>\<open>df[c] = pd.to_datetime(df[c])\<close>: the column must exist and every cell must parse.\<close>

definition to_datetime :: "string \<Rightarrow> dataframe \<Rightarrow> error + dataframe" where
  "to_datetime c df =
     (if c \<notin> set (columns df) then Inl (KeyError c)
      else if list_ex (\<lambda>r. is_text (r c)) (rows df) then Inl (ValueError ''datetime'')
      else Inr df)"

text \<open>
  \<open>df.sort_values(keys)\<close>: a stable sort on the last key, then on the one before, and so
  on; the first missing key is the KeyError.  Rows with equal keys keep the order of the
  table (with a single key pandas leaves their order open).
\<close>

definition sort_values :: "string list \<Rightarrow> dataframe \<Rightarrow> error + dataframe" where
  "sort_values keys df =
     (case filter (\<lambda>c. c \<notin> set (columns df)) keys of
        c # _ \<Rightarrow> Inl (KeyError c)
      | [] \<Rightarrow> Inr (df\<lparr>rows := foldr (\<lambda>c rs. sort_key (\<lambda>r. cell_key (r c)) rs) keys (rows df)\<rparr>))"

text \<open>\<open>df.groupby(c)\<close>: the groups in ascending order of their key, rows in table order.\<close>

definition groupby :: "string \<Rightarrow> dataframe \<Rightarrow> error + (cell \<times> row list) list" where
  "groupby c df =
     (if c \<notin> set (columns df) then Inl (KeyError c)
      else Inr (map (\<lambda>k. (k, filter (\<lambda>r. r c = k) (rows df)))
                  (sort_key cell_key (remdups (map (\<lambda>r. r c) (rows df))))))"

text \<open>\<open>xs.index(x)\<close> for an \<open>x\<close> that is in \<open>xs\<close>.\<close>

definition index_of :: "'a \<Rightarrow> 'a list \<Rightarrow> nat" where
  "index_of x xs = length (takeWhile (\<lambda>y. y \<noteq> x) xs)"

section \<open>Funnel analysis\<close>

text \<open>
  \<open>funnel_analysis\<close> of \<open>path_analysis_service.py\<close>.  The truth value of the optional
  \<open>time_window\<close>: \<open>None\<close> and \<open>0\<close> are false.
\<close>

definition window_on :: "int option \<Rightarrow> bool" where
  "window_on tw = (case tw of None \<Rightarrow> False | Some w \<Rightarrow> w \<noteq> 0)"

definition hours_between :: "real list \<Rightarrow> nat \<Rightarrow> nat \<Rightarrow> real" where
  "hours_between tss event_idx prev_idx = (tss ! event_idx - tss ! prev_idx) / 3600"

text \<open>
  The body of the inner loop for one user at step \<open>i\<close>: whether the user is added to
  \<open>step_users[i]\<close>, and the times appended to \<open>step_times[i]\<close>.
\<close>

definition step_user :: "int option \<Rightarrow> cell list \<Rightarrow> nat \<Rightarrow> cell list \<Rightarrow> real list \<Rightarrow> bool \<times> real list" where
  "step_user tw funnel_steps i events tss =
     (let step = funnel_steps ! i in
      if step \<in> set events then
        (let event_idx = index_of step events in
         if window_on tw \<and> i > 0 then
           (let prev_step = funnel_steps ! (i - 1) in
            if prev_step \<in> set events then
              (let prev_idx = index_of prev_step events in
               if event_idx > prev_idx then
                 (let time_diff = hours_between tss event_idx prev_idx in
                  if time_diff \<le> real_of_int (the tw) then (True, [time_diff]) else (False, []))
               else (False, []))
            else (False, []))
         else
           (True,
            if i > 0 \<and> funnel_steps ! (i - 1) \<in> set events then
              (let prev_idx = index_of (funnel_steps ! (i - 1)) events in
               if event_idx > prev_idx then [hours_between tss event_idx prev_idx] else [])
            else []))
      else (False, []))"

text \<open>\<open>step_users[i]\<close> (in the order the users are visited) and \<open>step_times[i]\<close>.\<close>

definition step_users :: "int option \<Rightarrow> cell list \<Rightarrow> (cell \<times> cell list \<times> real list) list \<Rightarrow> nat \<Rightarrow> cell list" where
  "step_users tw funnel_steps user_paths i =
     map fst (filter (\<lambda>(u, events, tss). fst (step_user tw funnel_steps i events tss)) user_paths)"

definition step_times :: "int option \<Rightarrow> cell list \<Rightarrow> (cell \<times> cell list \<times> real list) list \<Rightarrow> nat \<Rightarrow> real list" where
  "step_times tw funnel_steps user_paths i =
     concat (map (\<lambda>(u, events, tss). snd (step_user tw funnel_steps i events tss)) user_paths)"

text \<open>Python's \<open>round(x, n)\<close>, on exact numbers: to the nearest, a tie to the even one.\<close>

definition round_half_even :: "real \<Rightarrow> int" where
  "round_half_even x =
     (let f = \<lfloor>x\<rfloor>; d = x - of_int f
      in if d < 1 / 2 then f else if d > 1 / 2 then f + 1 else if even f then f else f + 1)"

definition py_round :: "real \<Rightarrow> nat \<Rightarrow> real" where
  "py_round x n = of_int (round_half_even (x * 10 ^ n)) / 10 ^ n"

record funnel_step =
  step_no :: nat
  step_name :: cell
  users :: nat
  conversion_rate :: real
  drop_off_rate :: real
  avg_time_from_prev :: real

record funnel_result =
  funnel_steps_out :: "funnel_step list"
  funnel_total_users :: nat
  overall_conversion_rate :: "real option"

definition funnel_row :: "int option \<Rightarrow> cell list \<Rightarrow> (cell \<times> cell list \<times> real list) list \<Rightarrow> nat \<Rightarrow> funnel_step" where
  "funnel_row tw funnel_steps user_paths i =
     (let n = length (step_users tw funnel_steps user_paths i);
          prev_users = length (step_users tw funnel_steps user_paths (i - 1));
          conv = (if i = 0 then 100 else if prev_users > 0 then real n / real prev_users * 100 else 0);
          drop = (if i = 0 then 0 else if prev_users > 0 then 100 - conv else 100);
          times = step_times tw funnel_steps user_paths i;
          avg_time = (if times \<noteq> [] then sum_list times / real (length times) else 0)
      in \<lparr>step_no = i + 1, step_name = funnel_steps ! i, users = n,
          conversion_rate = py_round conv 2, drop_off_rate = py_round drop 2,
          avg_time_from_prev = py_round avg_time 2\<rparr>)"

text \<open>The table of every user's events and times, after the sort by user and time.\<close>

definition user_paths_of :: "string \<Rightarrow> string \<Rightarrow> (cell \<times> row list) list \<Rightarrow> (cell \<times> cell list \<times> real list) list" where
  "user_paths_of event_col timestamp_col groups =
     map (\<lambda>(u, rs). (u, map (\<lambda>r. r event_col) rs, map (\<lambda>r. num_of (r timestamp_col)) rs)) groups"

definition funnel_analysis ::
  "dataframe \<Rightarrow> string \<Rightarrow> string \<Rightarrow> string \<Rightarrow> cell list \<Rightarrow> int option \<Rightarrow> error + funnel_result" where
  "funnel_analysis df user_id_col event_col timestamp_col funnel_steps time_window =
     (case to_datetime timestamp_col df of Inl e \<Rightarrow> Inl e | Inr df1 \<Rightarrow>
     (case sort_values [user_id_col, timestamp_col] df1 of Inl e \<Rightarrow> Inl e | Inr df2 \<Rightarrow>
     (case groupby user_id_col df2 of Inl e \<Rightarrow> Inl e | Inr groups \<Rightarrow>
      if event_col \<notin> set (columns df2) then Inl (KeyError event_col)
      else
        (let user_paths = user_paths_of event_col timestamp_col groups;
             steps = map (funnel_row time_window funnel_steps user_paths) [0..<length funnel_steps]
         in Inr \<lparr>funnel_steps_out = steps,
                 funnel_total_users = length groups,
                 overall_conversion_rate =
                   (if steps \<noteq> [] then
                      Some (if users (hd steps) > 0
                            then py_round (real (users (last steps)) / real (users (hd steps)) * 100) 2
                            else 0)
                    else None)\<rparr>))))"

section \<open>Path analysis\<close>

text \<open>Python's slice \<open>xs[:n]\<close>; a negative \<open>n\<close> counts from the end.\<close>

definition py_take :: "int \<Rightarrow> 'a list \<Rightarrow> 'a list" where
  "py_take n xs = (if n \<ge> 0 then take (nat n) xs else take (length xs - nat (- n)) xs)"

text \<open>
  A \<open>Counter\<close> (and any dict filled by \<open>+=\<close>) as an association list in insertion order:
  \<open>counter[k] += n\<close>.
\<close>

fun counter_add :: "'k \<Rightarrow> 'v::plus \<Rightarrow> ('k \<times> 'v) list \<Rightarrow> ('k \<times> 'v) list" where
  "counter_add k n [] = [(k, n)]"
| "counter_add k n ((k', c) # kvs) =
     (if k' = k then (k', c + n) # kvs else (k', c) # counter_add k n kvs)"

text \<open>The first loop: one count per user for the truncated sequence.\<close>

definition path_counter :: "int \<Rightarrow> (cell \<times> cell list) list \<Rightarrow> (cell list \<times> nat) list" where
  "path_counter max_path_length user_paths =
     foldl (\<lambda>cnt (user_id, events). counter_add (py_take max_path_length events) 1 cnt) [] user_paths"

text \<open>The labels seen a second time in a path (\<open>cycle_nodes\<close>).\<close>

definition cycle_nodes :: "cell list \<Rightarrow> cell set" where
  "cycle_nodes path =
     snd (foldl (\<lambda>(seen, cyc) node. (insert node seen, if node \<in> seen then insert node cyc else cyc))
            ({}, {}) path)"

definition cycles_detected :: "(cell list \<times> nat) list \<Rightarrow> (cell list \<times> nat \<times> cell set) list" where
  "cycles_detected pc =
     concat (map (\<lambda>(path, count). if cycle_nodes path \<noteq> {} then [(path, count, cycle_nodes path)] else []) pc)"

text \<open>
  \<open>node_map\<close> and \<open>nodes\<close>: the labels of the paths that reach \<open>min_user_count\<close>, in the
  order they are first met; a label's number is its position.
\<close>

definition add_node :: "cell \<Rightarrow> cell list \<Rightarrow> cell list" where
  "add_node event ns = (if event \<in> set ns then ns else ns @ [event])"

definition node_list :: "int \<Rightarrow> (cell list \<times> nat) list \<Rightarrow> cell list" where
  "node_list min_user_count pc =
     foldl (\<lambda>ns (path, count).
              if int count \<ge> min_user_count then foldl (\<lambda>ns event. add_node event ns) ns path else ns)
       [] pc"

definition node_get :: "cell list \<Rightarrow> cell \<Rightarrow> nat option" where
  "node_get ns event = (if event \<in> set ns then Some (index_of event ns) else None)"

text \<open>
  The flow (sankey) links of one path: the loop over \<open>i\<close> with its \<open>seen_in_path\<close> set;
  a target already seen is skipped, and then the source is not recorded as seen.
\<close>

definition sankey_step ::
  "cell list \<Rightarrow> nat \<Rightarrow> cell set \<times> ((nat \<times> nat) \<times> nat) list \<Rightarrow> cell \<times> cell \<Rightarrow> cell set \<times> ((nat \<times> nat) \<times> nat) list" where
  "sankey_step ns count st edge =
     (case (st, edge) of ((seen_in_path, link_counter), (source_node, target_node)) \<Rightarrow>
        if target_node \<in> seen_in_path then (seen_in_path, link_counter)
        else (insert source_node seen_in_path,
              (case (node_get ns source_node, node_get ns target_node) of
                 (Some source, Some target) \<Rightarrow>
                   if source \<noteq> target then counter_add (source, target) count link_counter
                   else link_counter
               | _ \<Rightarrow> link_counter)))"

definition sankey_links_of :: "int \<Rightarrow> cell list \<Rightarrow> (cell list \<times> nat) list \<Rightarrow> ((nat \<times> nat) \<times> nat) list" where
  "sankey_links_of min_user_count ns pc =
     foldl (\<lambda>link_counter (path, count).
              if int count \<ge> min_user_count
              then snd (foldl (sankey_step ns count) ({}, link_counter) (zip path (tl path)))
              else link_counter)
       [] pc"

text \<open>The links of the force graph: every step between two different labels.\<close>

definition graph_links_of :: "int \<Rightarrow> (cell list \<times> nat) list \<Rightarrow> (cell \<times> cell \<times> nat) list" where
  "graph_links_of min_user_count pc =
     concat (map (\<lambda>(path, count).
                    if int count \<ge> min_user_count
                    then map (\<lambda>(source, target). (source, target, count))
                           (filter (\<lambda>(source, target). source \<noteq> target) (zip path (tl path)))
                    else []) pc)"

text \<open>\<open>Counter.most_common(n)\<close>: by count, largest first, ties in insertion order.\<close>

definition most_common :: "nat \<Rightarrow> ('k \<times> nat) list \<Rightarrow> ('k \<times> nat) list" where
  "most_common n pc = take n (sort_key (\<lambda>(k, c). - int c) pc)"

definition top_paths_of :: "int \<Rightarrow> nat \<Rightarrow> (cell list \<times> nat) list \<Rightarrow> (cell list \<times> nat \<times> real) list" where
  "top_paths_of min_user_count n_users pc =
     map (\<lambda>(path, count). (path, count, py_round (real count / real n_users * 100) 2))
       (filter (\<lambda>(path, count). int count \<ge> min_user_count) (most_common 20 pc))"

text \<open>
  The result of \<open>path_analysis\<close>.  The per-node statistics (\<open>node_details\<close>, and the
  \<open>value\<close> and \<open>symbolSize\<close> of the graph nodes) are not part of this model.
\<close>

record path_result =
  path_total_users :: nat
  total_paths :: nat
  has_cycle_in_data :: bool
  cycle_details :: "(cell list \<times> nat \<times> cell set) list"
  top_paths :: "(cell list \<times> nat \<times> real) list"
  sankey_nodes :: "cell list"
  sankey_links :: "((nat \<times> nat) \<times> nat) list"
  graph_nodes :: "cell list"
  graph_links :: "(cell \<times> cell \<times> nat) list"

definition path_report :: "int \<Rightarrow> int \<Rightarrow> (cell \<times> cell list) list \<Rightarrow> path_result" where
  "path_report max_path_length min_user_count user_paths =
     (let pc = path_counter max_path_length user_paths;
          cycles = cycles_detected pc;
          ns = node_list min_user_count pc
      in \<lparr>path_total_users = length user_paths,
          total_paths = length pc,
          has_cycle_in_data = (length cycles > 0),
          cycle_details = (if length cycles > 0 then take 10 cycles else []),
          top_paths = top_paths_of min_user_count (length user_paths) pc,
          sankey_nodes = ns,
          sankey_links = sankey_links_of min_user_count ns pc,
          graph_nodes = ns,
          graph_links = graph_links_of min_user_count pc\<rparr>)"

definition path_analysis ::
  "dataframe \<Rightarrow> string \<Rightarrow> string \<Rightarrow> string \<Rightarrow> int \<Rightarrow> int \<Rightarrow> error + path_result" where
  "path_analysis df user_id_col event_col timestamp_col max_path_length min_user_count =
     (case to_datetime timestamp_col df of Inl e \<Rightarrow> Inl e | Inr df1 \<Rightarrow>
     (case sort_values [user_id_col, timestamp_col] df1 of Inl e \<Rightarrow> Inl e | Inr df2 \<Rightarrow>
     (case groupby user_id_col df2 of Inl e \<Rightarrow> Inl e | Inr groups \<Rightarrow>
      if event_col \<notin> set (columns df2) then Inl (KeyError event_col)
      else Inr (path_report max_path_length min_user_count
                  (map (\<lambda>(u, rs). (u, map (\<lambda>r. r event_col) rs)) groups)))))"

section \<open>Attribution\<close>

text \<open>
  \<open>attribution_service.py\<close>, for calls without \<open>additional_touchpoint_cols\<close>.  A journey
  is the dict built by \<open>_build_user_journeys\<close>.
\<close>

record journey =
  user_id :: cell
  touchpoints :: "cell list"
  timestamps :: "real list"
  converted :: bool
  conversion_value :: real
  touchpoint_count :: nat

text \<open>Python's \<open>float(v)\<close>.\<close>

fun float_of :: "cell \<Rightarrow> error + real" where
  "float_of (Num x) = Inr x"
| "float_of (Str s) = Inl (ValueError ''float'')"

text \<open>The body of the loop of \<open>_build_user_journeys\<close> for one group.\<close>

definition build_journey ::
  "dataframe \<Rightarrow> string \<Rightarrow> string \<Rightarrow> string option \<Rightarrow> string option \<Rightarrow> cell \<times> row list \<Rightarrow> error + journey list" where
  "build_journey df touchpoint_col timestamp_col conversion_col conversion_value_col g =
     (case g of (uid, user_rows) \<Rightarrow>
      (case sort_values [timestamp_col] \<lparr>columns = columns df, rows = user_rows\<rparr> of
         Inl e \<Rightarrow> Inl e
       | Inr user_df \<Rightarrow>
          if touchpoint_col \<notin> set (columns df) then Inl (KeyError touchpoint_col)
          else
            (let tps = map (\<lambda>r. r touchpoint_col) (rows user_df);
                 tss = map (\<lambda>r. num_of (r timestamp_col)) (rows user_df);
                 conv = (if col_given conversion_col df
                         then (if length (rows user_df) > 0
                               then truthy (last (rows user_df) (the conversion_col)) else False)
                         else True);
                 val = (if col_given conversion_value_col df
                        then (if length (rows user_df) > 0
                              then float_of (last (rows user_df) (the conversion_value_col)) else Inr 1)
                        else Inr 1)
             in (case val of
                   Inl e \<Rightarrow> Inl e
                 | Inr v \<Rightarrow>
                     Inr (if tps \<noteq> []
                          then [\<lparr>user_id = uid, touchpoints = tps, timestamps = tss, converted = conv,
                                  conversion_value = (if conv then v else 0),
                                  touchpoint_count = length tps\<rparr>]
                          else [])))))"

fun build_journeys_loop ::
  "dataframe \<Rightarrow> string \<Rightarrow> string \<Rightarrow> string option \<Rightarrow> string option \<Rightarrow> (cell \<times> row list) list \<Rightarrow> error + journey list" where
  "build_journeys_loop df tc ts cc vc [] = Inr []"
| "build_journeys_loop df tc ts cc vc (g # gs) =
     (case build_journey df tc ts cc vc g of
        Inl e \<Rightarrow> Inl e
      | Inr js \<Rightarrow> (case build_journeys_loop df tc ts cc vc gs of
                     Inl e \<Rightarrow> Inl e
                   | Inr rest \<Rightarrow> Inr (js @ rest)))"

definition build_user_journeys ::
  "dataframe \<Rightarrow> string \<Rightarrow> string \<Rightarrow> string \<Rightarrow> string option \<Rightarrow> string option \<Rightarrow> error + journey list" where
  "build_user_journeys df user_id_col touchpoint_col timestamp_col conversion_col conversion_value_col =
     (case groupby user_id_col df of
        Inl e \<Rightarrow> Inl e
      | Inr groups \<Rightarrow>
          build_journeys_loop df touchpoint_col timestamp_col conversion_col conversion_value_col groups)"

text \<open>
  The six models.  Each \<open>_credit\<close> function is the loop that fills the \<open>attribution\<close>
  dict (an association list in insertion order); the model is the loop followed by
  \<open>_normalize_attribution\<close>.
\<close>

definition credited :: "journey \<Rightarrow> bool" where
  "credited j = (converted j \<and> touchpoints j \<noteq> [])"

definition first_touch_credit :: "journey list \<Rightarrow> (cell \<times> real) list" where
  "first_touch_credit js =
     foldl (\<lambda>attribution j.
              if credited j then counter_add (hd (touchpoints j)) (conversion_value j) attribution
              else attribution) [] js"

definition last_touch_credit :: "journey list \<Rightarrow> (cell \<times> real) list" where
  "last_touch_credit js =
     foldl (\<lambda>attribution j.
              if credited j then counter_add (last (touchpoints j)) (conversion_value j) attribution
              else attribution) [] js"

definition linear_credit :: "journey list \<Rightarrow> (cell \<times> real) list" where
  "linear_credit js =
     foldl (\<lambda>attribution j.
              if credited j
              then (let value_per_touch = conversion_value j / real (length (touchpoints j))
                    in foldl (\<lambda>a touchpoint. counter_add touchpoint value_per_touch a)
                         attribution (touchpoints j))
              else attribution) [] js"

definition decay_weights :: "real \<Rightarrow> real list \<Rightarrow> real list" where
  "decay_weights lambda_decay tss =
     map (\<lambda>ts. exp (- lambda_decay * ((last tss - ts) / (24 * 3600)))) tss"

fun time_decay_loop :: "real \<Rightarrow> (cell \<times> real) list \<Rightarrow> journey list \<Rightarrow> error + (cell \<times> real) list" where
  "time_decay_loop lambda_decay attribution [] = Inr attribution"
| "time_decay_loop lambda_decay attribution (j # js) =
     (if \<not> credited j then time_decay_loop lambda_decay attribution js
      else if timestamps j = [] then Inl IndexError
      else
        (let weights = decay_weights lambda_decay (timestamps j);
             total_weight = sum_list weights
         in if total_weight > 0
            then time_decay_loop lambda_decay
                   (foldl (\<lambda>a (touchpoint, weight).
                             counter_add touchpoint (conversion_value j * (weight / total_weight)) a)
                      attribution (zip (touchpoints j) weights)) js
            else time_decay_loop lambda_decay attribution js))"

definition time_decay_credit :: "int \<Rightarrow> journey list \<Rightarrow> error + (cell \<times> real) list" where
  "time_decay_credit half_life_days js =
     (if half_life_days = 0 then Inl ZeroDivisionError
      else time_decay_loop (ln 2 / real_of_int half_life_days) [] js)"

definition position_based_credit :: "journey list \<Rightarrow> (cell \<times> real) list" where
  "position_based_credit js =
     foldl (\<lambda>attribution j.
              if \<not> credited j then attribution
              else
                (let tps = touchpoints j; n = length tps
                 in if n = 1 then counter_add (tps ! 0) (conversion_value j) attribution
                    else if n = 2
                    then counter_add (tps ! 1) (conversion_value j * 0.5)
                           (counter_add (tps ! 0) (conversion_value j * 0.5) attribution)
                    else
                      (let a1 = counter_add (tps ! 0) (conversion_value j * 0.4) attribution;
                           a2 = counter_add (last tps) (conversion_value j * 0.4) a1;
                           middle_value = conversion_value j * 0.2 / real (n - 2)
                       in foldl (\<lambda>a touchpoint. counter_add touchpoint middle_value a)
                            a2 (butlast (tl tps))))) [] js"

text \<open>\<open>d[k].append(v)\<close> on a \<open>defaultdict(list)\<close>.\<close>

fun contrib_add :: "'k \<Rightarrow> 'v \<Rightarrow> ('k \<times> 'v list) list \<Rightarrow> ('k \<times> 'v list) list" where
  "contrib_add k v [] = [(k, [v])]"
| "contrib_add k v ((k', vs) # kvs) =
     (if k' = k then (k', vs @ [v]) # kvs else (k', vs) # contrib_add k v kvs)"

definition touchpoint_contributions :: "int \<Rightarrow> journey list \<Rightarrow> (cell \<times> real list) list" where
  "touchpoint_contributions max_touchpoints js =
     foldl (\<lambda>contribs j.
              if \<not> credited j then contribs
              else
                (let tps = py_take max_touchpoints (touchpoints j); n = length tps
                 in if n = 0 then contribs
                    else (let value_per_touch = conversion_value j / real n
                          in foldl (\<lambda>c touchpoint. contrib_add touchpoint value_per_touch c)
                               contribs tps))) [] js"

definition shapley_credit :: "int \<Rightarrow> journey list \<Rightarrow> (cell \<times> real) list" where
  "shapley_credit max_touchpoints js =
     map (\<lambda>(touchpoint, contributions). (touchpoint, sum_list contributions))
       (touchpoint_contributions max_touchpoints js)"

record share =
  share_value :: real
  share_percentage :: real

text \<open>
  \<open>_normalize_attribution\<close>: nothing when the total is zero; otherwise the touchpoints
  by value, largest first (ties in insertion order), each with its rounded value and
  its rounded percentage of the total.
\<close>

definition normalize_attribution :: "(cell \<times> real) list \<Rightarrow> (cell \<times> share) list" where
  "normalize_attribution attribution =
     (let total = sum_list (map snd attribution)
      in if total = 0 then []
         else map (\<lambda>(touchpoint, v).
                     (touchpoint, \<lparr>share_value = py_round v 4,
                                   share_percentage = py_round (v / total * 100) 2\<rparr>))
                (sort_key (\<lambda>(touchpoint, v). - v) attribution))"

definition first_touch_attribution :: "journey list \<Rightarrow> (cell \<times> share) list" where
  "first_touch_attribution js = normalize_attribution (first_touch_credit js)"

definition last_touch_attribution :: "journey list \<Rightarrow> (cell \<times> share) list" where
  "last_touch_attribution js = normalize_attribution (last_touch_credit js)"

definition linear_attribution :: "journey list \<Rightarrow> (cell \<times> share) list" where
  "linear_attribution js = normalize_attribution (linear_credit js)"

definition time_decay_attribution :: "int \<Rightarrow> journey list \<Rightarrow> error + (cell \<times> share) list" where
  "time_decay_attribution half_life_days js =
     (case time_decay_credit half_life_days js of
        Inl e \<Rightarrow> Inl e
      | Inr attribution \<Rightarrow> Inr (normalize_attribution attribution))"

definition position_based_attribution :: "journey list \<Rightarrow> (cell \<times> share) list" where
  "position_based_attribution js = normalize_attribution (position_based_credit js)"

definition shapley_attribution :: "int \<Rightarrow> journey list \<Rightarrow> (cell \<times> share) list" where
  "shapley_attribution max_touchpoints js = normalize_attribution (shapley_credit max_touchpoints js)"

record attribution_summary =
  avg_touchpoints_per_journey :: real
  summary_conversion_rate :: real
  model_comparison :: "(string \<times> (cell \<times> real) list) list"

text \<open>\<open>sum(j["converted"] for j in user_journeys)\<close>.\<close>

definition converted_count :: "journey list \<Rightarrow> nat" where
  "converted_count js = length (filter converted js)"

definition generate_summary :: "journey list \<Rightarrow> (string \<times> (cell \<times> share) list) list \<Rightarrow> attribution_summary" where
  "generate_summary js results =
     \<lparr>avg_touchpoints_per_journey =
        (if js \<noteq> [] then py_round (real (sum_list (map touchpoint_count js)) / real (length js)) 2 else 0),
      summary_conversion_rate =
        (if js \<noteq> [] then py_round (real (converted_count js) / real (length js) * 100) 2 else 0),
      model_comparison =
        map (\<lambda>(model_name, model_result).
               (model_name, map (\<lambda>(tp, data). (tp, share_percentage data)) (take 3 model_result)))
          results\<rparr>"

record attribution_report =
  models_out :: "(string \<times> (cell \<times> share) list) list"
  summary :: attribution_summary
  user_journey_count :: nat
  total_conversions :: nat
  total_conversion_value :: real

text \<open>The result: the message returned when there is no journey, or the report.\<close>

datatype attribution_output = No_journeys | Report attribution_report

definition ATTRIBUTION_MODELS :: "string list" where
  "ATTRIBUTION_MODELS =
     [''first_touch'', ''last_touch'', ''linear'', ''time_decay'', ''position_based'', ''shapley'']"

definition run_models :: "string list \<Rightarrow> int \<Rightarrow> journey list \<Rightarrow> error + (string \<times> (cell \<times> share) list) list" where
  "run_models models time_decay_half_life js =
     (let r1 = (if ''first_touch'' \<in> set models then [(''first_touch'', first_touch_attribution js)] else []);
          r2 = (if ''last_touch'' \<in> set models then [(''last_touch'', last_touch_attribution js)] else []);
          r3 = (if ''linear'' \<in> set models then [(''linear'', linear_attribution js)] else []);
          r5 = (if ''position_based'' \<in> set models
                then [(''position_based'', position_based_attribution js)] else []);
          r6 = (if ''shapley'' \<in> set models then [(''shapley'', shapley_attribution 5 js)] else [])
      in if ''time_decay'' \<in> set models
         then (case time_decay_attribution time_decay_half_life js of
                 Inl e \<Rightarrow> Inl e
               | Inr r \<Rightarrow> Inr (r1 @ r2 @ r3 @ [(''time_decay'', r)] @ r5 @ r6))
         else Inr (r1 @ r2 @ r3 @ r5 @ r6))"

definition attribution_analysis ::
  "dataframe \<Rightarrow> string \<Rightarrow> string \<Rightarrow> string \<Rightarrow> string option \<Rightarrow> string option \<Rightarrow> string list option \<Rightarrow> int
     \<Rightarrow> error + attribution_output" where
  "attribution_analysis df user_id_col touchpoint_col timestamp_col conversion_col conversion_value_col
       models time_decay_half_life =
     (let ms = (case models of None \<Rightarrow> ATTRIBUTION_MODELS | Some l \<Rightarrow> l)
      in (case to_datetime timestamp_col df of Inl e \<Rightarrow> Inl e | Inr df1 \<Rightarrow>
         (case build_user_journeys df1 user_id_col touchpoint_col timestamp_col
                 conversion_col conversion_value_col of
            Inl e \<Rightarrow> Inl e
          | Inr user_journeys \<Rightarrow>
              if user_journeys = [] then Inr No_journeys
              else (case run_models ms time_decay_half_life user_journeys of
                      Inl e \<Rightarrow> Inl e
                    | Inr results \<Rightarrow>
                        Inr (Report
                          \<lparr>models_out = results,
                            summary = generate_summary user_journeys results,
                            user_journey_count = length user_journeys,
                            total_conversions = converted_count user_journeys,
                            total_conversion_value = sum_list (map conversion_value user_journeys)\<rparr>)))))"

section \<open>Sequence mining\<close>

text \<open>
  \<open>sequence_mining_service.py\<close>, for calls without \<open>additional_event_cols\<close>: the sequence
  database and the frequent patterns.  The association rules, the high-conversion
  patterns and the sequence statistics are not part of this model.
\<close>

record user_seq =
  seq_user_id :: cell
  events :: "cell list"
  seq_converted :: bool

text \<open>
  The column \<open>_build_sequences\<close> sorts every group by: \<open>event_time\<close> when the table has
  a column of that name, the first column otherwise.
\<close>

definition build_sort_col :: "dataframe \<Rightarrow> string" where
  "build_sort_col df = (if ''event_time'' \<in> set (columns df) then ''event_time'' else hd (columns df))"

definition build_sequence :: "dataframe \<Rightarrow> string \<Rightarrow> string option \<Rightarrow> cell \<times> row list \<Rightarrow> error + user_seq list" where
  "build_sequence df event_col conversion_col g =
     (case g of (uid, user_rows) \<Rightarrow>
      (case sort_values [build_sort_col df] \<lparr>columns = columns df, rows = user_rows\<rparr> of
         Inl e \<Rightarrow> Inl e
       | Inr user_df \<Rightarrow>
          if event_col \<notin> set (columns df) then Inl (KeyError event_col)
          else
            (let evs = map (\<lambda>r. r event_col) (rows user_df);
                 conv = (if col_given conversion_col df
                         then (if length (rows user_df) > 0
                               then truthy (last (rows user_df) (the conversion_col)) else False)
                         else False)
             in Inr (if evs \<noteq> []
                     then [\<lparr>seq_user_id = uid, events = evs, seq_converted = conv\<rparr>]
                     else []))))"

fun build_sequences_loop :: "dataframe \<Rightarrow> string \<Rightarrow> string option \<Rightarrow> (cell \<times> row list) list \<Rightarrow> error + user_seq list" where
  "build_sequences_loop df ec cc [] = Inr []"
| "build_sequences_loop df ec cc (g # gs) =
     (case build_sequence df ec cc g of
        Inl e \<Rightarrow> Inl e
      | Inr ss \<Rightarrow> (case build_sequences_loop df ec cc gs of
                     Inl e \<Rightarrow> Inl e
                   | Inr rest \<Rightarrow> Inr (ss @ rest)))"

definition build_sequences :: "dataframe \<Rightarrow> string \<Rightarrow> string \<Rightarrow> string option \<Rightarrow> error + user_seq list" where
  "build_sequences df user_id_col event_col conversion_col =
     (case groupby user_id_col df of
        Inl e \<Rightarrow> Inl e
      | Inr groups \<Rightarrow> build_sequences_loop df event_col conversion_col groups)"

record pattern_info =
  pattern :: "cell list"
  support_count :: nat
  support :: real
  pattern_length :: nat
  conversion_count :: "nat option"
  pattern_conversion_rate :: "real option"

text \<open>Python's \<open>int(x)\<close> on a float: towards zero.\<close>

definition py_int :: "real \<Rightarrow> int" where
  "py_int x = (if x \<ge> 0 then \<lfloor>x\<rfloor> else \<lceil>x\<rceil>)"

text \<open>The different items of a list; the model visits them in the order of first occurrence.\<close>

definition unique_items :: "cell list \<Rightarrow> cell list" where
  "unique_items xs = foldl (\<lambda>ns e. add_node e ns) [] xs"

definition item_counts :: "user_seq list \<Rightarrow> (cell \<times> nat) list" where
  "item_counts seqs =
     foldl (\<lambda>cnt s. foldl (\<lambda>c item. counter_add item 1 c) cnt (unique_items (events s))) [] seqs"

definition pattern_entry :: "nat \<Rightarrow> cell list \<Rightarrow> nat \<Rightarrow> nat \<Rightarrow> pattern_info" where
  "pattern_entry total_sequences pat count conv_count =
     \<lparr>pattern = pat, support_count = count,
      support = py_round (real count / real total_sequences) 4,
      pattern_length = length pat,
      conversion_count = (if conv_count > 0 then Some conv_count else None),
      pattern_conversion_rate =
        (if conv_count > 0 then Some (py_round (real conv_count / real count) 4) else None)\<rparr>"

text \<open>
  The search of \<open>project_database\<close> in one sequence: the rest after the first place
  where \<open>prefix\<close> stands as a block.
\<close>

fun suffix_after :: "'a list \<Rightarrow> 'a list \<Rightarrow> 'a list option" where
  "suffix_after prefix [] = (if prefix = [] then Some [] else None)"
| "suffix_after prefix (e # es) =
     (if take (length prefix) (e # es) = prefix then Some (drop (length prefix) (e # es))
      else suffix_after prefix es)"

definition project_database :: "user_seq list \<Rightarrow> cell list \<Rightarrow> user_seq list" where
  "project_database seqs prefix =
     concat (map (\<lambda>s. case suffix_after prefix (events s) of
                         Some suffix \<Rightarrow> if suffix \<noteq> [] then [s\<lparr>events := suffix\<rparr>] else []
                       | None \<Rightarrow> []) seqs)"

definition suffix_counts :: "user_seq list \<Rightarrow> (cell \<times> nat) list" where
  "suffix_counts seqs =
     foldl (\<lambda>c s. if events s \<noteq> [] then counter_add (hd (events s)) 1 c else c) [] seqs"

function mine_recursive :: "int \<Rightarrow> int \<Rightarrow> nat \<Rightarrow> user_seq list \<Rightarrow> cell list \<Rightarrow> int \<Rightarrow> pattern_info list" where
  "mine_recursive max_length min_count total_sequences seqs prefix len =
     (if len > max_length then []
      else concat (map (\<lambda>(item, count).
             if int count \<ge> min_count
             then pattern_entry total_sequences (prefix @ [item]) count
                    (length (filter (\<lambda>s. events s \<noteq> [] \<and> hd (events s) = item \<and> seq_converted s) seqs))
                  # (let projected = project_database seqs [item]
                     in if projected \<noteq> []
                        then mine_recursive max_length min_count total_sequences projected
                               (prefix @ [item]) (len + 1)
                        else [])
             else []) (suffix_counts seqs)))"
  by pat_completeness auto
termination
  by (relation "measure (\<lambda>(max_length, min_count, total_sequences, seqs, prefix, len). nat (max_length + 1 - len))") auto

text \<open>The projection made at the top level for a frequent item.\<close>

definition first_projection :: "cell \<Rightarrow> user_seq list \<Rightarrow> user_seq list" where
  "first_projection item seqs =
     concat (map (\<lambda>s. if item \<in> set (events s)
                       then (let idx = index_of item (events s)
                             in if idx + 1 < length (events s)
                                then [s\<lparr>events := drop (idx + 1) (events s)\<rparr>] else [])
                       else []) seqs)"

definition sort_patterns :: "pattern_info list \<Rightarrow> pattern_info list" where
  "sort_patterns ps =
     sort_key (\<lambda>p. (- support p, - (case pattern_conversion_rate p of Some r \<Rightarrow> r | None \<Rightarrow> 0))) ps"

definition all_patterns :: "user_seq list \<Rightarrow> real \<Rightarrow> int \<Rightarrow> pattern_info list" where
  "all_patterns seqs min_support max_length =
     (let total_sequences = length seqs;
          min_count = py_int (min_support * real total_sequences);
          counts = item_counts seqs
      in concat (map (\<lambda>(item, count).
                   pattern_entry total_sequences [item] count
                     (length (filter (\<lambda>s. item \<in> set (events s) \<and> seq_converted s) seqs))
                   # (let projected = first_projection item seqs
                      in if projected \<noteq> []
                         then mine_recursive max_length min_count total_sequences projected [item] 2
                         else []))
                (filter (\<lambda>(item, count). int count \<ge> min_count) counts)))"

definition prefixspan_mining :: "user_seq list \<Rightarrow> real \<Rightarrow> int \<Rightarrow> pattern_info list" where
  "prefixspan_mining seqs min_support max_length =
     (if seqs = [] then [] else take 50 (sort_patterns (all_patterns seqs min_support max_length)))"

record mining_report =
  frequent_patterns :: "pattern_info list"
  total_sequences_out :: nat

datatype mining_output = No_sequences | Mined mining_report

definition sequence_pattern_mining ::
  "dataframe \<Rightarrow> string \<Rightarrow> string \<Rightarrow> string \<Rightarrow> real \<Rightarrow> int \<Rightarrow> string option \<Rightarrow> error + mining_output" where
  "sequence_pattern_mining df user_id_col event_col timestamp_col min_support max_pattern_length conversion_col =
     (case to_datetime timestamp_col df of Inl e \<Rightarrow> Inl e | Inr df1 \<Rightarrow>
     (case sort_values [user_id_col, timestamp_col] df1 of Inl e \<Rightarrow> Inl e | Inr df2 \<Rightarrow>
     (case build_sequences df2 user_id_col event_col conversion_col of
        Inl e \<Rightarrow> Inl e
      | Inr sequences \<Rightarrow>
          if sequences = [] then Inr No_sequences
          else Inr (Mined \<lparr>frequent_patterns = prefixspan_mining sequences min_support max_pattern_length,
                           total_sequences_out = length sequences\<rparr>))))"

section \<open>Quantities the statements speak of\<close>

text \<open>
  The sums of the \<open>value\<close> and \<open>percentage\<close> fields of one model's result, the total
  of an \<open>attribution\<close> dict before it is normalized, and the sum of the conversion
  values of the journeys a model credits (converted, with a touchpoint).
\<close>

definition sum_values :: "(cell \<times> share) list \<Rightarrow> real" where
  "sum_values r = sum_list (map (\<lambda>(tp, data). share_value data) r)"

definition sum_percentages :: "(cell \<times> share) list \<Rightarrow> real" where
  "sum_percentages r = sum_list (map (\<lambda>(tp, data). share_percentage data) r)"

definition credit_total :: "(cell \<times> real) list \<Rightarrow> real" where
  "credit_total a = sum_list (map snd a)"

definition converted_value :: "journey list \<Rightarrow> real" where
  "converted_value js = sum_list (map conversion_value (filter credited js))"

definition contrib_total :: "(cell \<times> real list) list \<Rightarrow> real" where
  "contrib_total c = sum_list (map (\<lambda>(k, vs). sum_list vs) c)"

text \<open>
  The claim's reading of support: a sequence contains a pattern when the pattern is an
  ordered subsequence of it.
\<close>

fun contains_pattern :: "'a list \<Rightarrow> 'a list \<Rightarrow> bool" where
  "contains_pattern [] evs = True"
| "contains_pattern (x # q) [] = False"
| "contains_pattern (x # q) (e # evs) =
     (if x = e then contains_pattern q evs else contains_pattern (x # q) evs)"

definition containing_count :: "cell list \<Rightarrow> user_seq list \<Rightarrow> nat" where
  "containing_count pat seqs = length (filter (\<lambda>s. contains_pattern pat (events s)) seqs)"

text \<open>
  What the mining counts.  \<open>after_first x evs\<close> is the rest of \<open>evs\<close> after the first
  \<open>x\<close>.  A pattern of one item matches a sequence that holds the item.  A longer
  pattern matches when every item but the last is found in turn, each at its first
  occurrence after the one before, and the last item is the event right after the
  match of the item before it.
\<close>

fun after_first :: "'a \<Rightarrow> 'a list \<Rightarrow> 'a list" where
  "after_first x [] = []"
| "after_first x (e # evs) = (if e = x then evs else after_first x evs)"

fun next_match :: "'a list \<Rightarrow> 'a list \<Rightarrow> bool" where
  "next_match [] evs = False"
| "next_match [z] evs = (evs \<noteq> [] \<and> hd evs = z)"
| "next_match (x # y # q) evs = next_match (y # q) (after_first x evs)"

fun code_match :: "'a list \<Rightarrow> 'a list \<Rightarrow> bool" where
  "code_match [] evs = False"
| "code_match [a] evs = (a \<in> set evs)"
| "code_match (a # b # q) evs = next_match (b # q) (after_first a evs)"

definition code_support_count :: "cell list \<Rightarrow> user_seq list \<Rightarrow> nat" where
  "code_support_count pat seqs = length (filter (\<lambda>s. code_match pat (events s)) seqs)"

text \<open>The count a \<open>Counter\<close> holds for a key.\<close>

definition count_in :: "('k \<times> nat) list \<Rightarrow> 'k \<Rightarrow> nat" where
  "count_in c k = (case map_of c k of None \<Rightarrow> 0 | Some m \<Rightarrow> m)"

section \<open>Example tables\<close>

definition touch_columns :: "string list" where
  "touch_columns = [''user'', ''touchpoint'', ''ts'', ''converted'', ''value'']"

definition touch_row :: "real \<Rightarrow> string \<Rightarrow> real \<Rightarrow> real \<Rightarrow> real \<Rightarrow> row" where
  "touch_row u tp t conv v =
     (\<lambda>c. if c = ''user'' then Num u else if c = ''touchpoint'' then Str tp
          else if c = ''ts'' then Num t else if c = ''converted'' then Num conv else Num v)"

text \<open>
  User 1 meets A and B at the same instant and converts for 10; user 2 meets A and does
  not convert.
\<close>

definition two_users_table :: dataframe where
  "two_users_table =
     \<lparr>columns = touch_columns,
      rows = [touch_row 1 ''A'' 0 1 10, touch_row 2 ''A'' 5 0 0, touch_row 1 ''B'' 0 1 10]\<rparr>"

definition two_users_journeys :: "journey list" where
  "two_users_journeys =
     [\<lparr>user_id = Num 1, touchpoints = [Str ''A'', Str ''B''], timestamps = [0, 0], converted = True,
       conversion_value = 10, touchpoint_count = 2\<rparr>,
      \<lparr>user_id = Num 2, touchpoints = [Str ''A''], timestamps = [5], converted = False,
       conversion_value = 0, touchpoint_count = 1\<rparr>]"

definition even_split :: "(cell \<times> share) list" where
  "even_split = [(Str ''A'', \<lparr>share_value = 5, share_percentage = 50\<rparr>),
                 (Str ''B'', \<lparr>share_value = 5, share_percentage = 50\<rparr>)]"

definition two_users_report :: attribution_report where
  "two_users_report =
     \<lparr>models_out =
        [(''first_touch'', [(Str ''A'', \<lparr>share_value = 10, share_percentage = 100\<rparr>)]),
         (''last_touch'', [(Str ''B'', \<lparr>share_value = 10, share_percentage = 100\<rparr>)]),
         (''linear'', even_split), (''time_decay'', even_split),
         (''position_based'', even_split), (''shapley'', even_split)],
      summary =
        \<lparr>avg_touchpoints_per_journey = 1.5, summary_conversion_rate = 50,
         model_comparison =
           [(''first_touch'', [(Str ''A'', 100)]), (''last_touch'', [(Str ''B'', 100)]),
            (''linear'', [(Str ''A'', 50), (Str ''B'', 50)]),
            (''time_decay'', [(Str ''A'', 50), (Str ''B'', 50)]),
            (''position_based'', [(Str ''A'', 50), (Str ''B'', 50)]),
            (''shapley'', [(Str ''A'', 50), (Str ''B'', 50)])]\<rparr>,
      user_journey_count = 2, total_conversions = 1, total_conversion_value = 10\<rparr>"

text \<open>One user who converts, with the conversion value 0 in the value column.\<close>

definition zero_value_table :: dataframe where
  "zero_value_table = \<lparr>columns = touch_columns, rows = [touch_row 1 ''A'' 0 1 0]\<rparr>"

definition zero_value_journeys :: "journey list" where
  "zero_value_journeys =
     [\<lparr>user_id = Num 1, touchpoints = [Str ''A''], timestamps = [0], converted = True,
       conversion_value = 0, touchpoint_count = 1\<rparr>]"

definition zero_value_report :: attribution_report where
  "zero_value_report =
     \<lparr>models_out =
        [(''first_touch'', []), (''last_touch'', []), (''linear'', []), (''time_decay'', []),
         (''position_based'', []), (''shapley'', [])],
      summary =
        \<lparr>avg_touchpoints_per_journey = 1, summary_conversion_rate = 100,
         model_comparison =
           [(''first_touch'', []), (''last_touch'', []), (''linear'', []), (''time_decay'', []),
            (''position_based'', []), (''shapley'', [])]\<rparr>,
      user_journey_count = 1, total_conversions = 1, total_conversion_value = 0\<rparr>"

text \<open>The result of one model in a report.\<close>

definition lookup_model :: "string \<Rightarrow> attribution_report \<Rightarrow> (cell \<times> share) list option" where
  "lookup_model m rep = map_of (models_out rep) m"

text \<open>
  No cell of the timestamp column is an unparsable text, and the role columns that the
  table lacks, in the order given.
\<close>

definition timestamps_parse :: "string \<Rightarrow> dataframe \<Rightarrow> bool" where
  "timestamps_parse c df = (\<not> list_ex (\<lambda>r. is_text (r c)) (rows df))"


text \<open>Two users with the single touchpoint A, each converting for 1.\<close>

definition same_touch_journeys :: "journey list" where
  "same_touch_journeys =
     [\<lparr>user_id = Num 1, touchpoints = [Str ''A''], timestamps = [0], converted = True,
       conversion_value = 1, touchpoint_count = 1\<rparr>,
      \<lparr>user_id = Num 2, touchpoints = [Str ''A''], timestamps = [0], converted = True,
       conversion_value = 1, touchpoint_count = 1\<rparr>]"

definition event_columns :: "string list" where
  "event_columns = [''user'', ''event'', ''ts'']"

definition event_row :: "string \<Rightarrow> string \<Rightarrow> real \<Rightarrow> row" where
  "event_row u e t = (\<lambda>c. if c = ''user'' then Str u else if c = ''event'' then Str e else Num t)"

text \<open>One user who does B first and A an hour later.\<close>

definition late_first_step :: dataframe where
  "late_first_step =
     \<lparr>columns = event_columns, rows = [event_row ''u1'' ''B'' 3600, event_row ''u1'' ''A'' 7200]\<rparr>"

definition late_first_step_funnel :: funnel_result where
  "late_first_step_funnel =
     \<lparr>funnel_steps_out =
        [\<lparr>step_no = 1, step_name = Str ''A'', users = 1, conversion_rate = 100, drop_off_rate = 0,
          avg_time_from_prev = 0\<rparr>,
         \<lparr>step_no = 2, step_name = Str ''B'', users = 1, conversion_rate = 100, drop_off_rate = 0,
          avg_time_from_prev = 0\<rparr>],
      funnel_total_users = 1, overall_conversion_rate = Some 100\<rparr>"

text \<open>
  The same kind of table with the event column first: the user does B at time 1 and A
  at time 2.
\<close>

definition event_first_table :: dataframe where
  "event_first_table =
     \<lparr>columns = [''event'', ''user'', ''ts''], rows = [event_row ''u1'' ''B'' 1, event_row ''u1'' ''A'' 2]\<rparr>"

definition event_first_patterns :: "pattern_info list" where
  "event_first_patterns =
     [\<lparr>pattern = [Str ''A''], support_count = 1, support = 1, pattern_length = 1,
       conversion_count = None, pattern_conversion_rate = None\<rparr>,
      \<lparr>pattern = [Str ''A'', Str ''B''], support_count = 1, support = 1, pattern_length = 2,
       conversion_count = None, pattern_conversion_rate = None\<rparr>,
      \<lparr>pattern = [Str ''B''], support_count = 1, support = 1, pattern_length = 1,
       conversion_count = None, pattern_conversion_rate = None\<rparr>]"



definition xyx_table :: dataframe where
  "xyx_table =
     \<lparr>columns = event_columns,
      rows = [event_row ''u1'' ''X'' 1, event_row ''u1'' ''Y'' 2, event_row ''u1'' ''X'' 3]\<rparr>"

definition xyx_default_result :: path_result where
  "xyx_default_result =
     \<lparr>path_total_users = 1, total_paths = 1, has_cycle_in_data = True,
      cycle_details = [([Str ''X'', Str ''Y'', Str ''X''], 1, {Str ''X''})],
      top_paths = [], sankey_nodes = [], sankey_links = [], graph_nodes = [], graph_links = []\<rparr>"




text \<open>The journeys and the report of \<open>two_users_table\<close> when no conversion column is named.\<close>

definition default_journeys :: "journey list" where
  "default_journeys =
     [\<lparr>user_id = Num 1, touchpoints = [Str ''A'', Str ''B''], timestamps = [0, 0], converted = True,
       conversion_value = 1, touchpoint_count = 2\<rparr>,
      \<lparr>user_id = Num 2, touchpoints = [Str ''A''], timestamps = [5], converted = True,
       conversion_value = 1, touchpoint_count = 1\<rparr>]"

definition default_linear :: "(cell \<times> share) list" where
  "default_linear = [(Str ''A'', \<lparr>share_value = 1.5, share_percentage = 75\<rparr>),
                     (Str ''B'', \<lparr>share_value = 0.5, share_percentage = 25\<rparr>)]"

definition default_report :: attribution_report where
  "default_report =
     \<lparr>models_out = [(''linear'', default_linear)],
      summary =
        \<lparr>avg_touchpoints_per_journey = 1.5, summary_conversion_rate = 100,
         model_comparison = [(''linear'', [(Str ''A'', 75), (Str ''B'', 25)])]\<rparr>,
      user_journey_count = 2, total_conversions = 2, total_conversion_value = 2\<rparr>"

text \<open>Sequences for the mining examples; none is converted.\<close>

definition plain_seq :: "real \<Rightarrow> string list \<Rightarrow> user_seq" where
  "plain_seq u es = \<lparr>seq_user_id = Num u, events = map Str es, seq_converted = False\<rparr>"

text \<open>Two users: A, B and A, C, B.\<close>

definition gap_sequences :: "user_seq list" where
  "gap_sequences = [plain_seq 1 [''A'', ''B''], plain_seq 2 [''A'', ''C'', ''B'']]"

definition gap_pattern :: pattern_info where
  "gap_pattern = pattern_entry 2 [Str ''A'', Str ''B''] 1 0"




section \<open>Properties\<close>

subsection \<open>Attribution: what the models distribute\<close>

lemma round_half_even_bound: "\<bar>of_int (round_half_even x) - x\<bar> \<le> 1 / 2"
  unfolding round_half_even_def Let_def by (auto; linarith)

lemma py_round_bound: "\<bar>py_round x n - x\<bar> \<le> 1 / (2 * 10 ^ n)"
proof -
  let ?d = "of_int (round_half_even (x * 10 ^ n)) - x * 10 ^ n"
  have "\<bar>?d\<bar> \<le> 1 / 2"
    by (rule round_half_even_bound)
  then have "\<bar>?d\<bar> / 10 ^ n \<le> (1 / 2) / 10 ^ n"
    by (rule divide_right_mono) simp
  moreover have "py_round x n - x = ?d / 10 ^ n"
    by (simp add: py_round_def field_simps)
  then have "\<bar>py_round x n - x\<bar> = \<bar>?d\<bar> / 10 ^ n"
    by (simp only: abs_divide) simp
  ultimately show ?thesis by simp
qed

lemma sum_list_close:
  "(\<And>x. x \<in> set xs \<Longrightarrow> \<bar>f x - g x\<bar> \<le> b)
     \<Longrightarrow> \<bar>sum_list (map f xs) - sum_list (map g xs)\<bar> \<le> real (length xs) * (b::real)"
proof (induction xs)
  case Nil
  then show ?case by simp
next
  case (Cons x xs)
  have "\<bar>f x - g x\<bar> \<le> b" using Cons.prems by simp
  moreover have "\<bar>sum_list (map f xs) - sum_list (map g xs)\<bar> \<le> real (length xs) * b"
    using Cons by simp
  ultimately show ?case by (simp add: algebra_simps)
qed

lemma sum_list_insort_key: "sum_list (map f (insort_key k x xs)) = f x + (sum_list (map f xs) :: real)"
  by (induction xs) auto

lemma sum_list_sort_key: "sum_list (map f (sort_key k xs)) = (sum_list (map f xs) :: real)"
  by (induction xs) (auto simp: sum_list_insort_key)

lemma sum_list_scale: "sum_list (map (\<lambda>p. snd p * c) a) = sum_list (map snd a) * (c::real)"
  by (induction a) (auto simp: algebra_simps)

lemma length_normalize:
  "credit_total a \<noteq> 0 \<Longrightarrow> length (normalize_attribution a) = length a"
  by (simp add: normalize_attribution_def credit_total_def)

lemma normalize_zero: "credit_total a = 0 \<Longrightarrow> normalize_attribution a = []"
  by (simp add: normalize_attribution_def credit_total_def)

lemma normalize_values:
  "\<bar>sum_values (normalize_attribution a) - credit_total a\<bar> \<le> real (length (normalize_attribution a)) / 20000"
proof (cases "credit_total a = 0")
  case True
  then show ?thesis by (simp add: normalize_zero sum_values_def)
next
  case False
  let ?s = "sort_key (\<lambda>(touchpoint, v). - v) a"
  have "sum_values (normalize_attribution a) = sum_list (map (\<lambda>(tp, v). py_round v 4) ?s)"
    using False by (simp add: normalize_attribution_def credit_total_def sum_values_def comp_def case_prod_unfold)
  moreover have "credit_total a = sum_list (map (\<lambda>(tp, v). v) ?s)"
    by (simp add: credit_total_def sum_list_sort_key case_prod_unfold)
  moreover have "\<bar>sum_list (map (\<lambda>(tp, v). py_round v 4) ?s) - sum_list (map (\<lambda>(tp, v). v) ?s)\<bar>
       \<le> real (length ?s) * (1 / 20000)"
    by (rule sum_list_close) (use py_round_bound[of _ 4] in \<open>auto simp: case_prod_unfold\<close>)
  ultimately show ?thesis using False by (simp add: length_normalize)
qed

lemma normalize_percentages:
  assumes "credit_total a \<noteq> 0"
  shows "\<bar>sum_percentages (normalize_attribution a) - 100\<bar> \<le> real (length (normalize_attribution a)) / 200"
proof -
  let ?t = "credit_total a"
  let ?s = "sort_key (\<lambda>(touchpoint, v). - v) a"
  have "sum_percentages (normalize_attribution a) = sum_list (map (\<lambda>(tp, v). py_round (v / ?t * 100) 2) ?s)"
    using assms by (simp add: normalize_attribution_def credit_total_def sum_percentages_def comp_def case_prod_unfold)
  moreover have "sum_list (map (\<lambda>(tp, v). v / ?t * 100) ?s) = 100"
  proof -
    have "sum_list (map (\<lambda>(tp, v). v / ?t * 100) ?s) = sum_list (map (\<lambda>p. snd p * (100 / ?t)) a)"
      by (simp add: sum_list_sort_key case_prod_unfold)
    also have "\<dots> = sum_list (map snd a) * (100 / ?t)"
      by (rule sum_list_scale)
    also have "\<dots> = 100" using assms by (simp add: credit_total_def)
    finally show ?thesis .
  qed
  moreover have "\<bar>sum_list (map (\<lambda>(tp, v). py_round (v / ?t * 100) 2) ?s) - sum_list (map (\<lambda>(tp, v). v / ?t * 100) ?s)\<bar>
       \<le> real (length ?s) * (1 / 200)"
    by (rule sum_list_close) (use py_round_bound[of _ 2] in \<open>auto simp: case_prod_unfold\<close>)
  ultimately show ?thesis using assms by (simp add: length_normalize)
qed

lemma credit_total_counter_add: "credit_total (counter_add k v a) = credit_total a + v"
  by (induction a) (auto simp: credit_total_def)

lemma credit_total_fold_same:
  "credit_total (foldl (\<lambda>a tp. counter_add tp v a) a0 tps) = credit_total a0 + real (length tps) * v"
  by (induction tps arbitrary: a0) (auto simp: credit_total_counter_add algebra_simps)

lemma converted_value_Nil: "converted_value [] = 0"
  by (simp add: converted_value_def)

lemma converted_value_Cons:
  "converted_value (j # js) = (if credited j then conversion_value j else 0) + converted_value js"
  by (simp add: converted_value_def)

lemma first_touch_fold:
  "credit_total (foldl (\<lambda>attribution j.
       if credited j then counter_add (hd (touchpoints j)) (conversion_value j) attribution
       else attribution) a js) = credit_total a + converted_value js"
  by (induction js arbitrary: a) (auto simp: credit_total_counter_add converted_value_Cons converted_value_Nil)

lemma first_touch_total: "credit_total (first_touch_credit js) = converted_value js"
  by (simp add: first_touch_credit_def first_touch_fold) (simp add: credit_total_def)

lemma last_touch_fold:
  "credit_total (foldl (\<lambda>attribution j.
       if credited j then counter_add (last (touchpoints j)) (conversion_value j) attribution
       else attribution) a js) = credit_total a + converted_value js"
  by (induction js arbitrary: a) (auto simp: credit_total_counter_add converted_value_Cons converted_value_Nil)

lemma last_touch_total: "credit_total (last_touch_credit js) = converted_value js"
  by (simp add: last_touch_credit_def last_touch_fold) (simp add: credit_total_def)

lemma linear_fold:
  "credit_total (foldl (\<lambda>attribution j.
       if credited j
       then (let value_per_touch = conversion_value j / real (length (touchpoints j))
             in foldl (\<lambda>a touchpoint. counter_add touchpoint value_per_touch a) attribution (touchpoints j))
       else attribution) a js) = credit_total a + converted_value js"
proof (induction js arbitrary: a)
  case Nil
  then show ?case by (simp add: converted_value_def)
next
  case (Cons j js)
  show ?case
  proof (cases "credited j")
    case True
    then have "touchpoints j \<noteq> []" by (simp add: credited_def)
    then have "real (length (touchpoints j)) * (conversion_value j / real (length (touchpoints j))) = conversion_value j"
      by simp
    then show ?thesis using True Cons
      by (simp add: Let_def credit_total_fold_same converted_value_Cons)
  next
    case False
    then show ?thesis using Cons by (simp add: converted_value_Cons)
  qed
qed

lemma linear_total: "credit_total (linear_credit js) = converted_value js"
  by (simp add: linear_credit_def linear_fold) (simp add: credit_total_def)

lemma sum_list_pos:
  "xs \<noteq> [] \<Longrightarrow> (\<And>x. x \<in> set xs \<Longrightarrow> 0 < f x) \<Longrightarrow> 0 < (sum_list (map f xs) :: real)"
proof (induction xs)
  case Nil
  then show ?case by simp
next
  case (Cons x xs)
  show ?case
  proof (cases "xs = []")
    case True
    then show ?thesis using Cons.prems(2)[of x] by simp
  next
    case False
    then have "0 < sum_list (map f xs)" using Cons by simp
    moreover have "0 < f x" using Cons.prems(2)[of x] by simp
    ultimately show ?thesis by simp
  qed
qed

lemma decay_weights_pos: "tss \<noteq> [] \<Longrightarrow> 0 < sum_list (decay_weights l tss)"
  unfolding decay_weights_def by (rule sum_list_pos) simp_all

lemma fold_zip_weights:
  "length tps = length ws \<Longrightarrow>
   credit_total (foldl (\<lambda>a (tp, w). counter_add tp (c * (w / t)) a) a0 (zip tps ws))
     = credit_total a0 + c * (sum_list ws / t)"
  by (induction tps ws arbitrary: a0 rule: list_induct2)
     (auto simp: credit_total_counter_add algebra_simps add_divide_distrib)

lemma time_decay_loop_total:
  "time_decay_loop l a js = Inr r \<Longrightarrow>
   (\<And>j. j \<in> set js \<Longrightarrow> length (timestamps j) = length (touchpoints j)) \<Longrightarrow>
   credit_total r = credit_total a + converted_value js"
proof (induction js arbitrary: a)
  case Nil
  then show ?case by (simp add: converted_value_def)
next
  case (Cons j js)
  show ?case
  proof (cases "credited j")
    case False
    then show ?thesis using Cons by (simp add: converted_value_Cons)
  next
    case True
    then have ne: "timestamps j \<noteq> []" using Cons.prems(2)[of j] by (auto simp: credited_def)
    let ?w = "decay_weights l (timestamps j)"
    have pos: "0 < sum_list ?w" using ne by (rule decay_weights_pos)
    have len: "length (touchpoints j) = length ?w"
      using Cons.prems(2)[of j] by (simp add: decay_weights_def)
    let ?a = "foldl (\<lambda>a (touchpoint, weight).
                 counter_add touchpoint (conversion_value j * (weight / sum_list ?w)) a)
               a (zip (touchpoints j) ?w)"
    have "credit_total ?a = credit_total a + conversion_value j * (sum_list ?w / sum_list ?w)"
      by (rule fold_zip_weights[OF len])
    then have "credit_total ?a = credit_total a + conversion_value j"
      using pos by simp
    moreover have "time_decay_loop l ?a js = Inr r"
      using Cons.prems(1) True ne pos by (simp add: Let_def)
    then have "credit_total r = credit_total ?a + converted_value js"
      using Cons.IH Cons.prems(2) by simp
    ultimately show ?thesis using True by (simp add: converted_value_Cons)
  qed
qed

lemma time_decay_total:
  "time_decay_credit h js = Inr r \<Longrightarrow>
   (\<And>j. j \<in> set js \<Longrightarrow> length (timestamps j) = length (touchpoints j)) \<Longrightarrow>
   credit_total r = converted_value js"
  using time_decay_loop_total[of _ "[]" js r]
  by (auto simp: time_decay_credit_def credit_total_def split: if_splits)

lemma position_step:
  assumes "credited j"
  shows "credit_total
     (let tps = touchpoints j; n = length tps
      in if n = 1 then counter_add (tps ! 0) (conversion_value j) a
         else if n = 2
         then counter_add (tps ! 1) (conversion_value j * 0.5)
                (counter_add (tps ! 0) (conversion_value j * 0.5) a)
         else
           (let a1 = counter_add (tps ! 0) (conversion_value j * 0.4) a;
                a2 = counter_add (last tps) (conversion_value j * 0.4) a1;
                middle_value = conversion_value j * 0.2 / real (n - 2)
            in foldl (\<lambda>a touchpoint. counter_add touchpoint middle_value a) a2 (butlast (tl tps))))
     = credit_total a + conversion_value j"
proof -
  let ?n = "length (touchpoints j)"
  have n: "?n \<ge> 1" using assms by (cases "touchpoints j") (auto simp: credited_def)
  consider "?n = 1" | "?n = 2" | "?n \<ge> 3" using n by linarith
  then show ?thesis
  proof cases
    case 1
    then show ?thesis by (simp add: Let_def credit_total_counter_add)
  next
    case 2
    then show ?thesis by (simp add: Let_def credit_total_counter_add)
  next
    case 3
    let ?tps = "touchpoints j" and ?cv = "conversion_value j"
    let ?mv = "?cv * 0.2 / real (?n - 2)"
    let ?a2 = "counter_add (last ?tps) (?cv * 0.4) (counter_add (?tps ! 0) (?cv * 0.4) a)"
    let ?mid = "butlast (tl ?tps)"
    have h1: "credit_total (foldl (\<lambda>a tp. counter_add tp ?mv a) ?a2 ?mid)
                = credit_total ?a2 + real (length ?mid) * ?mv"
      by (rule credit_total_fold_same)
    have h2: "credit_total ?a2 = credit_total a + ?cv * 0.4 + ?cv * 0.4"
      by (simp only: credit_total_counter_add)
    have "length ?mid = ?n - 2" by simp
    moreover have "0 < ?n - 2" using 3 by simp
    moreover have "5 * real ?n - 10 \<noteq> 0" using 3 by simp
    ultimately have h3: "real (length ?mid) * ?mv = ?cv * 0.2" by (simp add: field_simps)
    have "credit_total (foldl (\<lambda>a tp. counter_add tp ?mv a) ?a2 ?mid) = credit_total a + ?cv"
      unfolding h1 h2 h3 by simp
    then show ?thesis using 3 by (simp add: Let_def)
  qed
qed

lemma position_fold:
  "credit_total (foldl (\<lambda>attribution j.
       if \<not> credited j then attribution
       else
         (let tps = touchpoints j; n = length tps
          in if n = 1 then counter_add (tps ! 0) (conversion_value j) attribution
             else if n = 2
             then counter_add (tps ! 1) (conversion_value j * 0.5)
                    (counter_add (tps ! 0) (conversion_value j * 0.5) attribution)
             else
               (let a1 = counter_add (tps ! 0) (conversion_value j * 0.4) attribution;
                    a2 = counter_add (last tps) (conversion_value j * 0.4) a1;
                    middle_value = conversion_value j * 0.2 / real (n - 2)
                in foldl (\<lambda>a touchpoint. counter_add touchpoint middle_value a)
                     a2 (butlast (tl tps))))) a js) = credit_total a + converted_value js"
proof (induction js arbitrary: a)
  case Nil
  then show ?case by (simp add: converted_value_def)
next
  case (Cons j js)
  show ?case
  proof (cases "credited j")
    case True
    show ?thesis
      using True by (simp only: foldl_Cons if_not_P not_not Cons.IH position_step[OF True] converted_value_Cons if_True)
  next
    case False
    then show ?thesis using Cons by (simp add: converted_value_Cons)
  qed
qed

lemma position_based_total: "credit_total (position_based_credit js) = converted_value js"
  by (simp add: position_based_credit_def position_fold) (simp add: credit_total_def)

lemma contrib_total_add: "contrib_total (contrib_add k v c) = contrib_total c + v"
  by (induction c) (auto simp: contrib_total_def)

lemma contrib_total_fold_same:
  "contrib_total (foldl (\<lambda>c tp. contrib_add tp v c) c0 tps) = contrib_total c0 + real (length tps) * v"
  by (induction tps arbitrary: c0) (auto simp: contrib_total_add algebra_simps)

lemma py_take_nonempty: "0 < m \<Longrightarrow> xs \<noteq> [] \<Longrightarrow> py_take m xs \<noteq> []"
  by (cases xs) (auto simp: py_take_def take_Cons split: nat.splits)

lemma shapley_fold:
  assumes m: "0 < m"
  shows "contrib_total (foldl (\<lambda>contribs j.
              if \<not> credited j then contribs
              else
                (let tps = py_take m (touchpoints j); n = length tps
                 in if n = 0 then contribs
                    else (let value_per_touch = conversion_value j / real n
                          in foldl (\<lambda>c touchpoint. contrib_add touchpoint value_per_touch c)
                               contribs tps))) c js) = contrib_total c + converted_value js"
proof (induction js arbitrary: c)
  case Nil
  then show ?case by (simp add: converted_value_def)
next
  case (Cons j js)
  show ?case
  proof (cases "credited j")
    case True
    then have "py_take m (touchpoints j) \<noteq> []"
      using m by (simp add: credited_def py_take_nonempty)
    then have "length (py_take m (touchpoints j)) \<noteq> 0" by simp
    then show ?thesis using True Cons
      by (simp add: Let_def contrib_total_fold_same converted_value_Cons)
  next
    case False
    then show ?thesis using Cons by (simp add: converted_value_Cons)
  qed
qed

lemma shapley_total: "0 < m \<Longrightarrow> credit_total (shapley_credit m js) = converted_value js"
proof -
  assume m: "0 < m"
  have "credit_total (shapley_credit m js) = contrib_total (touchpoint_contributions m js)"
    by (simp add: shapley_credit_def credit_total_def contrib_total_def comp_def case_prod_unfold)
  also have "\<dots> = converted_value js"
    by (simp add: touchpoint_contributions_def shapley_fold[OF m]) (simp add: contrib_total_def)
  finally show ?thesis .
qed

lemma run_models_normalized:
  assumes "run_models ms hl js = Inr results" and "(m, r) \<in> set results"
    and wf: "\<And>j. j \<in> set js \<Longrightarrow> length (timestamps j) = length (touchpoints j)"
  shows "\<exists>a. r = normalize_attribution a \<and> credit_total a = converted_value js"
proof -
  have td: "\<And>x. time_decay_attribution hl js = Inr x \<Longrightarrow>
              \<exists>a. x = normalize_attribution a \<and> credit_total a = converted_value js"
    using time_decay_total[OF _ wf]
    by (auto simp: time_decay_attribution_def split: sum.splits)
  have "r = first_touch_attribution js \<or> r = last_touch_attribution js \<or> r = linear_attribution js
        \<or> time_decay_attribution hl js = Inr r \<or> r = position_based_attribution js
        \<or> r = shapley_attribution 5 js"
    using assms(1,2) by (auto simp: run_models_def Let_def split: if_splits sum.splits)
  then show ?thesis
    using td first_touch_total last_touch_total linear_total position_based_total
      shapley_total[of 5 js]
    unfolding first_touch_attribution_def last_touch_attribution_def linear_attribution_def
      position_based_attribution_def shapley_attribution_def
    by (elim disjE) (blast | force)+
qed

lemma normalized_conservation:
  assumes "r = normalize_attribution a" and "credit_total a = t"
  shows "\<bar>sum_values r - t\<bar> \<le> real (length r) / 20000
       \<and> (t \<noteq> 0 \<longrightarrow> \<bar>sum_percentages r - 100\<bar> \<le> real (length r) / 200)
       \<and> (t = 0 \<longrightarrow> r = [])"
  using assms normalize_values[of a] normalize_percentages[of a] normalize_zero[of a] by auto

lemma build_journey_props:
  assumes "build_journey df tc ts cc vc g = Inr js" and "j \<in> set js"
  shows "touchpoints j \<noteq> [] \<and> length (timestamps j) = length (touchpoints j)
         \<and> (\<not> converted j \<longrightarrow> conversion_value j = 0)
         \<and> touchpoint_count j = length (touchpoints j)"
  using assms
  by (cases g) (auto simp: build_journey_def Let_def split: sum.splits if_splits)

lemma build_journeys_loop_props:
  assumes "build_journeys_loop df tc ts cc vc gs = Inr js" and "j \<in> set js"
  shows "touchpoints j \<noteq> [] \<and> length (timestamps j) = length (touchpoints j)
         \<and> (\<not> converted j \<longrightarrow> conversion_value j = 0)
         \<and> touchpoint_count j = length (touchpoints j)"
  using assms
proof (induction gs arbitrary: js)
  case Nil
  then show ?case by simp
next
  case (Cons g gs)
  from Cons.prems(1) obtain a b where a: "build_journey df tc ts cc vc g = Inr a"
    and b: "build_journeys_loop df tc ts cc vc gs = Inr b" and js: "js = a @ b"
    by (auto split: sum.splits)
  from Cons.prems(2) js consider "j \<in> set a" | "j \<in> set b" by auto
  then show ?case
  proof cases
    case 1
    then show ?thesis using build_journey_props[OF a] by blast
  next
    case 2
    then show ?thesis using Cons.IH[OF b] by blast
  qed
qed

lemma build_user_journeys_props:
  assumes "build_user_journeys df u tc ts cc vc = Inr js" and "j \<in> set js"
  shows "touchpoints j \<noteq> [] \<and> length (timestamps j) = length (touchpoints j)
         \<and> (\<not> converted j \<longrightarrow> conversion_value j = 0)
         \<and> touchpoint_count j = length (touchpoints j)"
  using assms build_journeys_loop_props
  by (auto simp: build_user_journeys_def split: sum.splits)

lemma to_datetime_same: "to_datetime c df = Inr df1 \<Longrightarrow> df1 = df"
  by (auto simp: to_datetime_def split: if_splits)

lemma unconverted_zero_sum:
  "(\<And>j. j \<in> set js \<Longrightarrow> touchpoints j \<noteq> [] \<and> (\<not> converted j \<longrightarrow> conversion_value j = 0)) \<Longrightarrow>
   sum_list (map conversion_value js) = converted_value js
   \<and> converted_value js = sum_list (map conversion_value (filter converted js))"
  by (induction js) (auto simp: converted_value_def credited_def)

text \<open>
  Claim C2, as the code has it.  For every model that \<open>attribution_analysis\<close> computes,
  the reported values sum to the total conversion value of the converted journeys, up to
  0.00005 for each listed touchpoint (each value is rounded to four decimals).  When that
  total is not zero the percentages sum to 100, up to 0.005 for each listed touchpoint;
  when it is zero the result of the model is empty.
\<close>

theorem attribution_conservation:
  assumes "build_user_journeys df u tc ts cc vc = Inr js"
    and "attribution_analysis df u tc ts cc vc models hl = Inr (Report rep)"
    and "(m, r) \<in> set (models_out rep)"
  shows "total_conversion_value rep = sum_list (map conversion_value (filter converted js))
       \<and> \<bar>sum_values r - total_conversion_value rep\<bar> \<le> real (length r) / 20000
       \<and> (total_conversion_value rep \<noteq> 0 \<longrightarrow> \<bar>sum_percentages r - 100\<bar> \<le> real (length r) / 200)
       \<and> (total_conversion_value rep = 0 \<longrightarrow> r = [])"
proof -
  let ?ms = "case models of None \<Rightarrow> ATTRIBUTION_MODELS | Some l \<Rightarrow> l"
  from assms(2) obtain df1 where d: "to_datetime ts df = Inr df1"
    by (auto simp: attribution_analysis_def Let_def split: sum.splits)
  then have df1: "df1 = df" by (rule to_datetime_same)
  from assms(1,2) d df1 obtain results where rm: "run_models ?ms hl js = Inr results"
    and rep: "rep = \<lparr>models_out = results, summary = generate_summary js results,
                      user_journey_count = length js, total_conversions = converted_count js,
                      total_conversion_value = sum_list (map conversion_value js)\<rparr>"
    by (auto simp: attribution_analysis_def Let_def split: sum.splits if_splits)
  have props: "\<And>j. j \<in> set js \<Longrightarrow> touchpoints j \<noteq> [] \<and> length (timestamps j) = length (touchpoints j)
         \<and> (\<not> converted j \<longrightarrow> conversion_value j = 0)"
    using build_user_journeys_props[OF assms(1)] by blast
  have tot: "total_conversion_value rep = converted_value js"
    and tot2: "converted_value js = sum_list (map conversion_value (filter converted js))"
    using unconverted_zero_sum[of js] props rep by auto
  have "(m, r) \<in> set results" using assms(3) rep by simp
  then obtain a where "r = normalize_attribution a" and "credit_total a = converted_value js"
    using run_models_normalized[OF rm] props by blast
  then show ?thesis
    using normalized_conservation[of r a "converted_value js"] tot tot2 by simp
qed

lemma two_users_build:
  "build_user_journeys two_users_table ''user'' ''touchpoint'' ''ts'' (Some ''converted'') (Some ''value'')
     = Inr two_users_journeys"
  by code_simp

lemma two_users_time_decay:
  "time_decay_attribution 7 two_users_journeys = Inr even_split"
  by (simp add: time_decay_attribution_def time_decay_credit_def two_users_journeys_def credited_def
      decay_weights_def normalize_attribution_def even_split_def py_round_def round_half_even_def)

lemma two_users_others:
  "first_touch_attribution two_users_journeys = [(Str ''A'', \<lparr>share_value = 10, share_percentage = 100\<rparr>)]"
  "last_touch_attribution two_users_journeys = [(Str ''B'', \<lparr>share_value = 10, share_percentage = 100\<rparr>)]"
  "linear_attribution two_users_journeys = even_split"
  "position_based_attribution two_users_journeys = even_split"
  "shapley_attribution 5 two_users_journeys = even_split"
  by code_simp+

lemma two_users_to_datetime: "to_datetime ''ts'' two_users_table = Inr two_users_table"
  by (simp add: to_datetime_def two_users_table_def touch_columns_def touch_row_def)

lemma two_users_summary:
  "generate_summary two_users_journeys (models_out two_users_report) = summary two_users_report"
  "converted_count two_users_journeys = 1"
  "length two_users_journeys = 2"
  "sum_list (map conversion_value two_users_journeys) = 10"
  "two_users_journeys \<noteq> []"
  by code_simp+

lemma two_users_analysis:
  "attribution_analysis two_users_table ''user'' ''touchpoint'' ''ts'' (Some ''converted'') (Some ''value'') None 7
     = Inr (Report two_users_report)"
proof -
  have "run_models ATTRIBUTION_MODELS 7 two_users_journeys = Inr (models_out two_users_report)"
    by (simp add: run_models_def ATTRIBUTION_MODELS_def two_users_time_decay two_users_others
        two_users_report_def)
  then show ?thesis
    using two_users_summary
    by (simp add: attribution_analysis_def two_users_to_datetime two_users_build)
       (simp add: two_users_report_def)
qed

theorem attribution_conservation_witness:
  "build_user_journeys two_users_table ''user'' ''touchpoint'' ''ts'' (Some ''converted'') (Some ''value'')
     = Inr two_users_journeys
   \<and> attribution_analysis two_users_table ''user'' ''touchpoint'' ''ts'' (Some ''converted'') (Some ''value'')
       None 7 = Inr (Report two_users_report)
   \<and> (''time_decay'', even_split) \<in> set (models_out two_users_report)
   \<and> total_conversion_value two_users_report = sum_list (map conversion_value (filter converted two_users_journeys))
   \<and> \<bar>sum_values even_split - total_conversion_value two_users_report\<bar> \<le> real (length even_split) / 20000
   \<and> total_conversion_value two_users_report \<noteq> 0
   \<and> \<bar>sum_percentages even_split - 100\<bar> \<le> real (length even_split) / 200"
proof -
  have m: "(''time_decay'', even_split) \<in> set (models_out two_users_report)"
    by (simp add: two_users_report_def)
  have t: "total_conversion_value two_users_report \<noteq> 0"
    by (simp add: two_users_report_def)
  show ?thesis
    using attribution_conservation[OF two_users_build two_users_analysis m] two_users_build
      two_users_analysis m t
    by blast
qed

lemma zero_value_build:
  "build_user_journeys zero_value_table ''user'' ''touchpoint'' ''ts'' (Some ''converted'') (Some ''value'')
     = Inr zero_value_journeys"
  by code_simp

lemma zero_value_models:
  "run_models ATTRIBUTION_MODELS 7 zero_value_journeys = Inr (models_out zero_value_report)"
  by (simp add: run_models_def ATTRIBUTION_MODELS_def zero_value_journeys_def zero_value_report_def
      first_touch_attribution_def first_touch_credit_def last_touch_attribution_def last_touch_credit_def
      linear_attribution_def linear_credit_def position_based_attribution_def position_based_credit_def
      shapley_attribution_def shapley_credit_def touchpoint_contributions_def py_take_def
      time_decay_attribution_def time_decay_credit_def decay_weights_def credited_def
      normalize_attribution_def)

lemma zero_value_summary:
  "generate_summary zero_value_journeys (models_out zero_value_report) = summary zero_value_report"
  "converted_count zero_value_journeys = 1"
  "length zero_value_journeys = 1"
  "sum_list (map conversion_value zero_value_journeys) = 0"
  "zero_value_journeys \<noteq> []"
  by code_simp+

text \<open>
  Claim C2 as stated fails: one user converts, the value column holds 0, and every model
  returns an empty result, whose percentages sum to 0 and not to 100.
\<close>

theorem attribution_zero_total_counterexample:
  "attribution_analysis zero_value_table ''user'' ''touchpoint'' ''ts'' (Some ''converted'') (Some ''value'')
     None 7 = Inr (Report zero_value_report)
   \<and> total_conversions zero_value_report = 1
   \<and> lookup_model ''linear'' zero_value_report = Some []
   \<and> sum_percentages [] = 0"
  using zero_value_summary zero_value_models
  by (simp add: attribution_analysis_def to_datetime_def zero_value_build lookup_model_def
      sum_percentages_def)
     (simp add: zero_value_table_def touch_columns_def touch_row_def zero_value_report_def)

subsection \<open>Funnel: step membership\<close>

text \<open>
  With a time window, a user enters step \<open>i > 0\<close> only when the first occurrence of the
  step's label stands after the first occurrence of the previous label.
\<close>

lemma step_user_window_order:
  assumes "window_on tw" and "0 < i" and "fst (step_user tw steps i evs tss)"
  shows "steps ! (i - 1) \<in> set evs \<and> steps ! i \<in> set evs
       \<and> index_of (steps ! (i - 1)) evs < index_of (steps ! i) evs"
  using assms by (auto simp: step_user_def Let_def split: if_splits)

text \<open>
  Claim C1 fails on the code when no time window is set: the user does B and only then A,
  the funnel is A then B, and the user is still counted at step B (1 user at both
  steps), although B does not occur after the first A.
\<close>

theorem funnel_without_window_ignores_order:
  "funnel_analysis late_first_step ''user'' ''event'' ''ts'' [Str ''A'', Str ''B''] None
     = Inr late_first_step_funnel
   \<and> step_users None [Str ''A'', Str ''B''] [(Str ''u1'', [Str ''B'', Str ''A''], [3600, 7200])] 1 = [Str ''u1'']
   \<and> index_of (Str ''B'') [Str ''B'', Str ''A''] < index_of (Str ''A'') [Str ''B'', Str ''A'']"
  by code_simp

subsection \<open>Attribution: the Shapley credit\<close>

text \<open>
  Claim C3 fails on the code: two journeys with the single touchpoint A, each worth 1,
  give A the contributions 1 and 1, and the credit before normalization is their sum 2,
  not their mean 1.
\<close>

theorem shapley_credit_sums_contributions:
  "touchpoint_contributions 5 same_touch_journeys = [(Str ''A'', [1, 1])]
   \<and> shapley_credit 5 same_touch_journeys = [(Str ''A'', 2)]"
  by code_simp

subsection \<open>Attribution without a conversion column\<close>

lemma round_half_even_of_int: "round_half_even (of_int k) = k"
  by (simp add: round_half_even_def)

lemma py_round_100: "py_round 100 2 = 100"
proof -
  have "(100::real) * 10 ^ 2 = of_int 10000" by simp
  then have "round_half_even (100 * 10 ^ 2) = 10000" by (simp only: round_half_even_of_int)
  then show ?thesis by (simp add: py_round_def)
qed

lemma build_journey_default:
  assumes "build_journey df tc ts None None g = Inr js" and "j \<in> set js"
  shows "converted j \<and> conversion_value j = 1"
  using assms
  by (cases g) (auto simp: build_journey_def col_given_def Let_def split: sum.splits if_splits)

lemma build_journeys_loop_default:
  assumes "build_journeys_loop df tc ts None None gs = Inr js" and "j \<in> set js"
  shows "converted j \<and> conversion_value j = 1"
  using assms
proof (induction gs arbitrary: js)
  case Nil
  then show ?case by simp
next
  case (Cons g gs)
  from Cons.prems(1) obtain a b where a: "build_journey df tc ts None None g = Inr a"
    and b: "build_journeys_loop df tc ts None None gs = Inr b" and js: "js = a @ b"
    by (auto split: sum.splits)
  from Cons.prems(2) js consider "j \<in> set a" | "j \<in> set b" by auto
  then show ?case
  proof cases
    case 1
    then show ?thesis using build_journey_default[OF a] by blast
  next
    case 2
    then show ?thesis using Cons.IH[OF b] by blast
  qed
qed

lemma all_converted_value:
  "(\<And>j. j \<in> set js \<Longrightarrow> converted j \<and> conversion_value j = 1) \<Longrightarrow>
   converted_count js = length js \<and> sum_list (map conversion_value js) = real (length js)"
  by (induction js) (auto simp: converted_count_def)

lemma normalize_nonempty: "credit_total a \<noteq> 0 \<Longrightarrow> normalize_attribution a \<noteq> []"
proof -
  assume t: "credit_total a \<noteq> 0"
  then have "a \<noteq> []" by (auto simp: credit_total_def)
  then show ?thesis using length_normalize[OF t] by auto
qed

text \<open>
  Claim C10, as the code has it.  When neither a conversion column nor a conversion value
  column is named, every journey is converted with the value 1, the summary conversion
  rate is 100, and every computed model credits some touchpoint, its values summing to
  the number of journeys up to the rounding of each entry.
\<close>

theorem default_conversion:
  assumes "build_user_journeys df u tc ts None None = Inr js"
    and "attribution_analysis df u tc ts None None models hl = Inr (Report rep)"
  shows "(\<forall>j \<in> set js. converted j \<and> conversion_value j = 1)
       \<and> user_journey_count rep = length js \<and> 0 < length js
       \<and> total_conversions rep = length js
       \<and> summary_conversion_rate (summary rep) = 100
       \<and> (\<forall>(m, r) \<in> set (models_out rep).
             r \<noteq> [] \<and> \<bar>sum_values r - real (length js)\<bar> \<le> real (length r) / 20000)"
proof -
  let ?ms = "case models of None \<Rightarrow> ATTRIBUTION_MODELS | Some l \<Rightarrow> l"
  have dflt: "\<And>j. j \<in> set js \<Longrightarrow> converted j \<and> conversion_value j = 1"
    using assms(1) build_journeys_loop_default
    by (auto simp: build_user_journeys_def split: sum.splits)
  from assms(2) obtain df1 where d: "to_datetime ts df = Inr df1"
    by (auto simp: attribution_analysis_def Let_def split: sum.splits)
  then have df1: "df1 = df" by (rule to_datetime_same)
  from assms d df1 obtain results where rm: "run_models ?ms hl js = Inr results"
    and ne: "js \<noteq> []"
    and rep: "rep = \<lparr>models_out = results, summary = generate_summary js results,
                      user_journey_count = length js, total_conversions = converted_count js,
                      total_conversion_value = sum_list (map conversion_value js)\<rparr>"
    by (auto simp: attribution_analysis_def Let_def split: sum.splits if_splits)
  have cnt: "converted_count js = length js" and tot: "sum_list (map conversion_value js) = real (length js)"
    using all_converted_value[of js] dflt by auto
  have props: "\<And>j. j \<in> set js \<Longrightarrow> touchpoints j \<noteq> [] \<and> length (timestamps j) = length (touchpoints j)
         \<and> (\<not> converted j \<longrightarrow> conversion_value j = 0)"
    using build_user_journeys_props[OF assms(1)] by blast
  have cv: "converted_value js = real (length js)"
    using unconverted_zero_sum[of js] props tot by auto
  have nz: "converted_value js \<noteq> 0" using cv ne by simp
  have rate: "summary_conversion_rate (summary rep) = 100"
    using ne cnt by (simp add: rep generate_summary_def py_round_100)
  have each: "r \<noteq> [] \<and> \<bar>sum_values r - real (length js)\<bar> \<le> real (length r) / 20000"
    if mr: "(m, r) \<in> set results" for m r
  proof -
    obtain a where a: "r = normalize_attribution a" "credit_total a = converted_value js"
      using run_models_normalized[OF rm mr] props by blast
    then show ?thesis
      using normalized_conservation[of r a "converted_value js"] normalize_nonempty[of a] nz cv
      by simp
  qed
  show ?thesis using dflt ne cnt rate each by (auto simp: rep)
qed

lemma default_build:
  "build_user_journeys two_users_table ''user'' ''touchpoint'' ''ts'' None None = Inr default_journeys"
  by code_simp

lemma default_linear_result: "linear_attribution default_journeys = default_linear"
  by code_simp

lemma default_summary:
  "generate_summary default_journeys (models_out default_report) = summary default_report"
  "converted_count default_journeys = 2"
  "length default_journeys = 2"
  "sum_list (map conversion_value default_journeys) = 2"
  "default_journeys \<noteq> []"
  by code_simp+

lemma default_analysis:
  "attribution_analysis two_users_table ''user'' ''touchpoint'' ''ts'' None None (Some [''linear'']) 7
     = Inr (Report default_report)"
proof -
  have "run_models [''linear''] 7 default_journeys = Inr (models_out default_report)"
    by (simp add: run_models_def default_linear_result default_report_def)
  then show ?thesis
    using default_summary
    by (simp add: attribution_analysis_def two_users_to_datetime default_build)
       (simp add: default_report_def)
qed

theorem default_conversion_witness:
  "build_user_journeys two_users_table ''user'' ''touchpoint'' ''ts'' None None = Inr default_journeys
   \<and> attribution_analysis two_users_table ''user'' ''touchpoint'' ''ts'' None None (Some [''linear'']) 7
       = Inr (Report default_report)
   \<and> map conversion_value default_journeys = [1, 1]
   \<and> summary_conversion_rate (summary default_report) = 100
   \<and> total_conversions default_report = length default_journeys"
proof -
  have "map conversion_value default_journeys = [1, 1]" by (simp add: default_journeys_def)
  then show ?thesis
    using default_conversion[OF default_build default_analysis] default_build default_analysis
    by simp
qed

lemma value_only_build:
  "build_user_journeys zero_value_table ''user'' ''touchpoint'' ''ts'' None (Some ''value'')
     = Inr zero_value_journeys"
  by code_simp

text \<open>
  Claim C10 as stated fails: no conversion column is named but a value column is, the
  journey is converted with the value 0 of that column and not with 1, and no model
  credits anything.
\<close>

theorem default_conversion_counterexample:
  "build_user_journeys zero_value_table ''user'' ''touchpoint'' ''ts'' None (Some ''value'')
     = Inr zero_value_journeys
   \<and> map conversion_value zero_value_journeys = [0]
   \<and> attribution_analysis zero_value_table ''user'' ''touchpoint'' ''ts'' None (Some ''value'') None 7
       = Inr (Report zero_value_report)
   \<and> lookup_model ''first_touch'' zero_value_report = Some []"
  using zero_value_summary zero_value_models
  by (simp add: attribution_analysis_def to_datetime_def value_only_build lookup_model_def)
     (simp add: zero_value_table_def touch_columns_def touch_row_def zero_value_report_def
       zero_value_journeys_def)

subsection \<open>Path analysis: top paths, cycles and flow links\<close>






text \<open>
  Claim C7, as the code has it.  One user with the events X, Y, X in time order, X and Y
  different, \<open>min_user_count\<close> at most 1 and \<open>max_path_length\<close> at least 3: the data
  is flagged as cyclic, the flow nodes are X (0) and Y (1), and the only flow link is
  X to Y.
\<close>

theorem xyx_cycle_and_flow:
  assumes "X \<noteq> Y" and "min_user_count \<le> 1" and "3 \<le> max_path_length"
    and "u \<in> set cols" and "e \<in> set cols" and "ts \<in> set cols"
    and "r1 u = uid" and "r2 u = uid" and "r3 u = uid"
    and "r1 e = X" and "r2 e = Y" and "r3 e = X"
    and "r1 ts = Num t1" and "r2 ts = Num t2" and "r3 ts = Num t3"
    and "t1 \<le> t2" and "t2 \<le> t3"
  shows "\<exists>res. path_analysis \<lparr>columns = cols, rows = [r1, r2, r3]\<rparr> u e ts max_path_length min_user_count
               = Inr res
          \<and> has_cycle_in_data res \<and> sankey_nodes res = [X, Y] \<and> sankey_links res = [((0, 1), 1)]"
proof -
  let ?df = "\<lparr>columns = cols, rows = [r1, r2, r3]\<rparr>"
  have td: "to_datetime ts ?df = Inr ?df"
    using assms by (simp add: to_datetime_def)
  have sv: "sort_values [u, ts] ?df = Inr ?df"
    using assms by (simp add: sort_values_def)
  have gb: "groupby u ?df = Inr [(uid, [r1, r2, r3])]"
    using assms by (simp add: groupby_def)
  have pc: "path_counter max_path_length [(uid, [X, Y, X])] = [([X, Y, X], Suc 0)]"
    using assms(3) by (simp add: path_counter_def py_take_def)
  have cyc: "cycle_nodes [X, Y, X] = {X}"
    using assms(1) by (auto simp: cycle_nodes_def)
  have ns: "node_list min_user_count [([X, Y, X], Suc 0)] = [X, Y]"
    using assms(1,2) by (simp add: node_list_def add_node_def)
  have links: "sankey_links_of min_user_count [X, Y] [([X, Y, X], Suc 0)] = [((0, Suc 0), Suc 0)]"
    using assms(1,2) by (simp add: sankey_links_of_def sankey_step_def node_get_def index_of_def)
  show ?thesis
    using assms(4-6,10-12)
    by (simp add: path_analysis_def td sv gb path_report_def Let_def pc cycles_detected_def cyc ns links)
qed

theorem xyx_cycle_and_flow_witness:
  "Str ''X'' \<noteq> Str ''Y'' \<and> (1::int) \<le> 1 \<and> (3::int) \<le> 10
   \<and> (\<exists>res. path_analysis xyx_table ''user'' ''event'' ''ts'' 10 1 = Inr res
          \<and> has_cycle_in_data res \<and> sankey_nodes res = [Str ''X'', Str ''Y'']
          \<and> sankey_links res = [((0, 1), 1)])"
  using xyx_cycle_and_flow[where X = "Str ''X''" and Y = "Str ''Y''" and min_user_count = 1
      and max_path_length = 10 and u = "''user''" and e = "''event''" and ts = "''ts''"
      and cols = event_columns and uid = "Str ''u1''"
      and ?r1.0 = "event_row ''u1'' ''X'' 1" and ?r2.0 = "event_row ''u1'' ''Y'' 2"
      and ?r3.0 = "event_row ''u1'' ''X'' 3" and ?t1.0 = 1 and ?t2.0 = 2 and ?t3.0 = 3]
  by (simp add: xyx_table_def event_row_def event_columns_def)

text \<open>
  Claim C7 as stated fails with the default \<open>min_user_count = 5\<close>: the cycle is flagged
  but the flow graph has no link at all, so no link from X to Y.
\<close>

theorem xyx_default_counterexample:
  "path_analysis xyx_table ''user'' ''event'' ''ts'' 10 5 = Inr xyx_default_result
   \<and> sankey_links xyx_default_result = []"
  by code_simp

subsection \<open>Missing columns\<close>







lemma sort_values_missing:
  "filter (\<lambda>c. c \<notin> set (columns df)) ks = c # cs \<Longrightarrow> sort_values ks df = Inl (KeyError c)"
  by (simp add: sort_values_def)






subsection \<open>Sequence mining: the order of a user's events\<close>

text \<open>
  Claim C9 fails on the code for sequence mining: \<open>_build_sequences\<close> sorts each group
  again, by the first column of the table.  With the event column first, the user who
  does B at time 1 and A at time 2 gets the sequence A, B: the pattern A, B is reported
  and B, A is not.
\<close>

theorem sequences_sorted_by_first_column:
  "sequence_pattern_mining event_first_table ''user'' ''event'' ''ts'' 0.1 5 None
     = Inr (Mined \<lparr>frequent_patterns = event_first_patterns, total_sequences_out = 1\<rparr>)"
  by code_simp

subsection \<open>Sequence mining: what a support count counts\<close>

declare mine_recursive.simps [simp del]

lemma counter_add_keys: "set (map fst (counter_add k n c)) = insert k (set (map fst c))"
proof (induction c)
  case Nil
  then show ?case by simp
next
  case (Cons a c)
  obtain k' v where a: "a = (k', v)" by (cases a)
  show ?case
  proof (cases "k' = k")
    case True
    then show ?thesis using a by simp
  next
    case False
    then show ?thesis using a Cons by (simp add: insert_commute)
  qed
qed

lemma counter_add_distinct: "distinct (map fst c) \<Longrightarrow> distinct (map fst (counter_add k n c))"
proof (induction c)
  case Nil
  then show ?case by simp
next
  case (Cons a c)
  obtain k' v where a: "a = (k', v)" by (cases a)
  show ?case
  proof (cases "k' = k")
    case True
    then show ?thesis using Cons.prems a by simp
  next
    case False
    have "k' \<notin> set (map fst (counter_add k n c))"
      using Cons.prems a False by (simp only: counter_add_keys) simp
    then show ?thesis using Cons a False by simp
  qed
qed

lemma count_in_Nil: "count_in [] k = 0"
  by (simp add: count_in_def)

lemma count_in_counter_add:
  "count_in (counter_add k (Suc 0) c) k' = count_in c k' + (if k' = k then 1 else 0)"
  by (induction c) (auto simp: count_in_def)

lemma count_in_member:
  "distinct (map fst c) \<Longrightarrow> (k, n) \<in> set c \<Longrightarrow> count_in c k = n"
  by (simp add: count_in_def)

lemma suffix_fold_count:
  "count_in (foldl (\<lambda>c s. if events s \<noteq> [] then counter_add (hd (events s)) 1 c else c) c0 seqs) k
     = count_in c0 k + length (filter (\<lambda>s. events s \<noteq> [] \<and> hd (events s) = k) seqs)"
  by (induction seqs arbitrary: c0) (auto simp: count_in_counter_add)

lemma suffix_fold_distinct:
  "distinct (map fst c0) \<Longrightarrow>
   distinct (map fst (foldl (\<lambda>c s. if events s \<noteq> [] then counter_add (hd (events s)) 1 c else c) c0 seqs))"
  by (induction seqs arbitrary: c0) (auto simp: counter_add_distinct)

lemma suffix_counts_count:
  assumes "(item, count) \<in> set (suffix_counts seqs)"
  shows "count = length (filter (\<lambda>s. events s \<noteq> [] \<and> hd (events s) = item) seqs)"
proof -
  have "distinct (map fst (suffix_counts seqs))"
    unfolding suffix_counts_def by (rule suffix_fold_distinct) simp
  then have "count_in (suffix_counts seqs) item = count" using assms by (rule count_in_member)
  moreover have "count_in (suffix_counts seqs) item
      = length (filter (\<lambda>s. events s \<noteq> [] \<and> hd (events s) = item) seqs)"
    unfolding suffix_counts_def by (simp add: suffix_fold_count count_in_Nil)
  ultimately show ?thesis by simp
qed

lemma after_first_absent: "x \<notin> set evs \<Longrightarrow> after_first x evs = []"
  by (induction evs) auto

lemma suffix_after_single:
  "suffix_after [x] evs = (if x \<in> set evs then Some (after_first x evs) else None)"
  by (induction evs) auto

lemma project_single:
  "project_database seqs [x] =
     concat (map (\<lambda>s. if after_first x (events s) \<noteq> [] then [s\<lparr>events := after_first x (events s)\<rparr>] else []) seqs)"
  unfolding project_database_def
  by (rule arg_cong[where f = concat], rule map_cong)
     (auto simp: suffix_after_single after_first_absent)

lemma drop_index_of: "x \<in> set evs \<Longrightarrow> drop (Suc (index_of x evs)) evs = after_first x evs"
  by (induction evs) (auto simp: index_of_def)

lemma index_of_less: "x \<in> set evs \<Longrightarrow> index_of x evs < length evs"
  by (induction evs) (auto simp: index_of_def)

lemma first_projection_step:
  "(if item \<in> set evs
    then (let idx = index_of item evs
          in if idx + 1 < length evs then [s\<lparr>events := drop (idx + 1) evs\<rparr>] else [])
    else [])
   = (if after_first item evs \<noteq> [] then [s\<lparr>events := after_first item evs\<rparr>] else [])"
proof (cases "item \<in> set evs")
  case True
  have d: "drop (Suc (index_of item evs)) evs = after_first item evs"
    using True by (rule drop_index_of)
  have "(Suc (index_of item evs) < length evs) = (after_first item evs \<noteq> [])"
    using d by (metis drop_eq_Nil2 not_le)
  then show ?thesis using True d by (simp add: Let_def)
next
  case False
  then show ?thesis by (simp add: after_first_absent)
qed

lemma first_projection_eq: "first_projection item seqs = project_database seqs [item]"
  by (simp add: first_projection_def project_single first_projection_step)

lemma next_match_Nil: "next_match q [] = False"
  by (induction q "[] :: 'a list" rule: next_match.induct) auto

lemma project_filter_count:
  "length (filter (\<lambda>s. next_match q (events s)) (project_database seqs [x]))
     = length (filter (\<lambda>s. next_match q (after_first x (events s))) seqs)"
  unfolding project_single
  by (induction seqs) (auto simp: next_match_Nil)

lemma support_count_entry: "support_count (pattern_entry t pat c cc) = c"
  and pattern_entry_pattern: "pattern (pattern_entry t pat c cc) = pat"
  by (simp_all add: pattern_entry_def)

lemma mine_recursive_support:
  "p \<in> set (mine_recursive ml mc tot seqs pre len) \<Longrightarrow>
   \<exists>q. q \<noteq> [] \<and> pattern p = pre @ q
       \<and> support_count p = length (filter (\<lambda>s. next_match q (events s)) seqs)
       \<and> mc \<le> int (support_count p)"
proof (induction ml mc tot seqs pre len arbitrary: p rule: mine_recursive.induct)
  case (1 ml mc tot seqs pre len)
  let ?proj = "\<lambda>item. project_database seqs [item]"
  from "1.prems" have nl: "\<not> ml < len"
    by (auto simp: mine_recursive.simps[of ml mc tot seqs pre len] split: if_splits)
  from "1.prems" nl obtain item count where ic: "(item, count) \<in> set (suffix_counts seqs)"
    and mc: "mc \<le> int count"
    and p: "p = pattern_entry tot (pre @ [item]) count
                  (length (filter (\<lambda>s. events s \<noteq> [] \<and> hd (events s) = item \<and> seq_converted s) seqs))
            \<or> (?proj item \<noteq> [] \<and> p \<in> set (mine_recursive ml mc tot (?proj item) (pre @ [item]) (len + 1)))"
    by (auto simp: mine_recursive.simps[of ml mc tot seqs pre len] Let_def split: if_splits)
  from p show ?case
  proof
    assume e: "p = pattern_entry tot (pre @ [item]) count
                  (length (filter (\<lambda>s. events s \<noteq> [] \<and> hd (events s) = item \<and> seq_converted s) seqs))"
    have "count = length (filter (\<lambda>s. next_match [item] (events s)) seqs)"
      using suffix_counts_count[OF ic] by simp
    then show ?thesis
      using e mc by (intro exI[of _ "[item]"]) (simp add: support_count_entry pattern_entry_pattern)
  next
    assume r: "?proj item \<noteq> [] \<and> p \<in> set (mine_recursive ml mc tot (?proj item) (pre @ [item]) (len + 1))"
    then obtain q where q: "q \<noteq> []" "pattern p = (pre @ [item]) @ q"
      "support_count p = length (filter (\<lambda>s. next_match q (events s)) (?proj item))"
      "mc \<le> int (support_count p)"
      using "1.IH"[OF nl ic refl mc refl, of p] by auto
    obtain y q' where yq: "q = y # q'" using q(1) by (cases q) auto
    have "support_count p = length (filter (\<lambda>s. next_match (item # q) (events s)) seqs)"
      using q(3) by (simp add: project_filter_count yq)
    then show ?thesis
      using q by (intro exI[of _ "item # q"]) simp
  qed
qed

lemma unique_fold:
  "distinct ns \<Longrightarrow>
   distinct (foldl (\<lambda>ns e. add_node e ns) ns xs)
   \<and> set (foldl (\<lambda>ns e. add_node e ns) ns xs) = set ns \<union> set xs"
  by (induction xs arbitrary: ns) (auto simp: add_node_def)

lemma unique_items_props: "distinct (unique_items xs) \<and> set (unique_items xs) = set xs"
  using unique_fold[of "[]" xs] by (simp add: unique_items_def)

lemma items_fold_count:
  "count_in (foldl (\<lambda>c item. counter_add item 1 c) c0 items) k
     = count_in c0 k + length (filter (\<lambda>i. i = k) items)"
  by (induction items arbitrary: c0) (auto simp: count_in_counter_add)

lemma items_fold_distinct:
  "distinct (map fst c0) \<Longrightarrow> distinct (map fst (foldl (\<lambda>c item. counter_add item 1 c) c0 items))"
  by (induction items arbitrary: c0) (auto simp: counter_add_distinct)

lemma distinct_filter_eq: "distinct items \<Longrightarrow> length (filter (\<lambda>i. i = k) items) = (if k \<in> set items then 1 else 0)"
  by (induction items) auto

lemma item_fold_count:
  "count_in (foldl (\<lambda>cnt s. foldl (\<lambda>c item. counter_add item 1 c) cnt (unique_items (events s))) c0 seqs) k
     = count_in c0 k + length (filter (\<lambda>s. k \<in> set (events s)) seqs)"
proof (induction seqs arbitrary: c0)
  case Nil
  then show ?case by simp
next
  case (Cons s seqs)
  have "count_in (foldl (\<lambda>c item. counter_add item 1 c) c0 (unique_items (events s))) k
          = count_in c0 k + (if k \<in> set (events s) then 1 else 0)"
    using unique_items_props[of "events s"]
    by (simp only: items_fold_count distinct_filter_eq)
  then show ?case using Cons.IH by simp
qed

lemma item_fold_distinct:
  "distinct (map fst c0) \<Longrightarrow>
   distinct (map fst (foldl (\<lambda>cnt s. foldl (\<lambda>c item. counter_add item 1 c) cnt (unique_items (events s))) c0 seqs))"
  by (induction seqs arbitrary: c0) (auto simp: items_fold_distinct)

lemma item_counts_distinct: "distinct (map fst (item_counts seqs))"
  unfolding item_counts_def by (rule item_fold_distinct) simp

lemma item_counts_count_in:
  "count_in (item_counts seqs) k = length (filter (\<lambda>s. k \<in> set (events s)) seqs)"
  unfolding item_counts_def item_fold_count count_in_Nil by simp

lemma item_counts_count:
  assumes "(item, count) \<in> set (item_counts seqs)"
  shows "count = length (filter (\<lambda>s. item \<in> set (events s)) seqs)"
  using count_in_member[OF item_counts_distinct assms] item_counts_count_in by simp


lemma all_patterns_cases:
  assumes "p \<in> set (all_patterns seqs ms ml)"
  shows "\<exists>item count. (item, count) \<in> set (item_counts seqs)
           \<and> py_int (ms * real (length seqs)) \<le> int count
           \<and> (p = pattern_entry (length seqs) [item] count
                    (length (filter (\<lambda>s. item \<in> set (events s) \<and> seq_converted s) seqs))
                \<or> p \<in> set (mine_recursive ml (py_int (ms * real (length seqs))) (length seqs)
                               (first_projection item seqs) [item] 2))"
  using assms by (auto simp: all_patterns_def Let_def split: if_splits)

lemma prefixspan_subset: "set (prefixspan_mining seqs ms ml) \<subseteq> set (all_patterns seqs ms ml)"
proof -
  have "set (take 50 (sort_patterns (all_patterns seqs ms ml))) \<subseteq> set (sort_patterns (all_patterns seqs ms ml))"
    by (rule set_take_subset)
  then show ?thesis by (auto simp: prefixspan_mining_def sort_patterns_def)
qed

lemma all_patterns_support:
  assumes "p \<in> set (all_patterns seqs ms ml)"
  shows "support_count p = code_support_count (pattern p) seqs
       \<and> py_int (ms * real (length seqs)) \<le> int (support_count p)"
proof -
  let ?mc = "py_int (ms * real (length seqs))"
  obtain item count where ic: "(item, count) \<in> set (item_counts seqs)" and mc: "?mc \<le> int count"
    and p: "p = pattern_entry (length seqs) [item] count
                    (length (filter (\<lambda>s. item \<in> set (events s) \<and> seq_converted s) seqs))
            \<or> p \<in> set (mine_recursive ml ?mc (length seqs) (first_projection item seqs) [item] 2)"
    using all_patterns_cases[OF assms] by blast
  from p show ?thesis
  proof
    assume "p = pattern_entry (length seqs) [item] count
                    (length (filter (\<lambda>s. item \<in> set (events s) \<and> seq_converted s) seqs))"
    then show ?thesis
      using item_counts_count[OF ic] mc
      by (simp add: support_count_entry pattern_entry_pattern code_support_count_def)
  next
    assume "p \<in> set (mine_recursive ml ?mc (length seqs) (first_projection item seqs) [item] 2)"
    then obtain q where q: "q \<noteq> []" "pattern p = [item] @ q"
      "support_count p = length (filter (\<lambda>s. next_match q (events s)) (first_projection item seqs))"
      "?mc \<le> int (support_count p)"
      using mine_recursive_support by blast
    obtain y q' where yq: "q = y # q'" using q(1) by (cases q) auto
    have "support_count p = length (filter (\<lambda>s. next_match q (after_first item (events s))) seqs)"
      using q(3) by (simp add: first_projection_eq project_filter_count)
    then show ?thesis
      using q(2,4) by (simp add: code_support_count_def yq)
  qed
qed

text \<open>
  Claim C4, as the code has it.  The support count of an emitted pattern of length at
  least 2 is the number of user sequences that match it in the sense of \<open>code_match\<close>:
  the items but the last are found in turn at their first occurrences, and the last item
  is the event right after the match of the item before it.
\<close>

theorem pattern_support_count:
  assumes "p \<in> set (prefixspan_mining seqs min_support max_length)"
    and "2 \<le> length (pattern p)"
  shows "support_count p = code_support_count (pattern p) seqs"
  using assms(1) prefixspan_subset all_patterns_support by blast






lemma gap_pattern_emitted: "gap_pattern \<in> set (prefixspan_mining gap_sequences 0.1 5)"
  by code_simp

lemma gap_pattern_length: "2 \<le> length (pattern gap_pattern)"
  by code_simp

theorem pattern_support_count_witness:
  "gap_pattern \<in> set (prefixspan_mining gap_sequences 0.1 5)
   \<and> 2 \<le> length (pattern gap_pattern)
   \<and> support_count gap_pattern = code_support_count (pattern gap_pattern) gap_sequences
   \<and> pattern gap_pattern = [Str ''A'', Str ''B'']
   \<and> support_count gap_pattern = 1"
proof -
  have "pattern gap_pattern = [Str ''A'', Str ''B'']" "support_count gap_pattern = 1"
    by (simp_all add: gap_pattern_def pattern_entry_def)
  then show ?thesis
    using pattern_support_count[OF gap_pattern_emitted gap_pattern_length] gap_pattern_emitted
      gap_pattern_length
    by simp
qed

text \<open>
  Claim C4 as stated fails: of the sequences A, B and A, C, B both contain the pattern
  A, B as an ordered subsequence, and the emitted pattern A, B has the support count 1.
\<close>

theorem pattern_support_gap_counterexample:
  "gap_pattern \<in> set (prefixspan_mining gap_sequences 0.1 5)
   \<and> pattern gap_pattern = [Str ''A'', Str ''B'']
   \<and> support_count gap_pattern = 1
   \<and> containing_count [Str ''A'', Str ''B''] gap_sequences = 2"
  by code_simp





subsection \<open>The order of the journeys in attribution, funnel and path analysis\<close>

text \<open>
  When the timestamps parse, the journeys of \<open>_build_user_journeys\<close> are in time order
  and none is empty, and so are the per-user rows that funnel analysis and path analysis
  read their event lists from.
\<close>

lemma cell_key_num_order:
  "\<not> is_text a \<Longrightarrow> \<not> is_text b \<Longrightarrow> cell_key a \<le> cell_key b \<Longrightarrow> num_of a \<le> num_of b"
  by (cases a; cases b) (auto simp: less_eq_prod_def)

lemma sorted_num_of:
  assumes "sorted (map (\<lambda>r. cell_key (r c)) rs)" and "\<And>r. r \<in> set rs \<Longrightarrow> \<not> is_text (r c)"
  shows "sorted (map (\<lambda>r. num_of (r c)) rs)"
  using assms
proof (induction rs)
  case Nil
  then show ?case by simp
next
  case (Cons r rs)
  have "\<And>r'. r' \<in> set rs \<Longrightarrow> num_of (r c) \<le> num_of (r' c)"
    using Cons.prems by (auto intro: cell_key_num_order)
  then show ?case using Cons by auto
qed

lemma timestamps_parse_rows: "timestamps_parse c df \<Longrightarrow> r \<in> set (rows df) \<Longrightarrow> \<not> is_text (r c)"
  by (auto simp: timestamps_parse_def list_ex_iff)

lemma build_journey_sorted:
  assumes "build_journey df tc ts cc vc (uid, rs) = Inr js" and "j \<in> set js"
    and "\<And>r. r \<in> set rs \<Longrightarrow> \<not> is_text (r ts)"
  shows "sorted (timestamps j)"
proof -
  let ?s = "sort_key (\<lambda>r. cell_key (r ts)) rs"
  have "sorted (map (\<lambda>r. cell_key (r ts)) ?s)" by (rule sorted_sort_key)
  then have "sorted (map (\<lambda>r. num_of (r ts)) ?s)"
    using assms(3) by (intro sorted_num_of) auto
  moreover have "timestamps j = map (\<lambda>r. num_of (r ts)) ?s"
    using assms(1,2)
    by (auto simp: build_journey_def sort_values_def Let_def split: list.splits sum.splits if_splits)
  ultimately show ?thesis by simp
qed

lemma build_journeys_loop_sorted:
  assumes "build_journeys_loop df tc ts cc vc gs = Inr js" and "j \<in> set js"
    and "\<And>uid rs r. (uid, rs) \<in> set gs \<Longrightarrow> r \<in> set rs \<Longrightarrow> \<not> is_text (r ts)"
  shows "sorted (timestamps j)"
  using assms
proof (induction gs arbitrary: js)
  case Nil
  then show ?case by simp
next
  case (Cons g gs)
  obtain uid rs where g: "g = (uid, rs)" by (cases g)
  from Cons.prems(1) obtain a b where a: "build_journey df tc ts cc vc g = Inr a"
    and b: "build_journeys_loop df tc ts cc vc gs = Inr b" and js: "js = a @ b"
    by (auto split: sum.splits)
  from Cons.prems(2) js consider "j \<in> set a" | "j \<in> set b" by auto
  then show ?case
  proof cases
    case 1
    then show ?thesis using build_journey_sorted[of df tc ts cc vc uid rs a j] a g Cons.prems(3) by auto
  next
    case 2
    then show ?thesis using Cons.IH[OF b] Cons.prems(3) by auto
  qed
qed

lemma groupby_rows:
  "groupby c df = Inr groups \<Longrightarrow> (k, rs) \<in> set groups \<Longrightarrow> rs = filter (\<lambda>r. r c = k) (rows df)"
  by (auto simp: groupby_def split: if_splits)

lemma build_user_journeys_sorted:
  assumes "timestamps_parse ts df" and "build_user_journeys df u tc ts cc vc = Inr js" and "j \<in> set js"
  shows "sorted (timestamps j) \<and> touchpoints j \<noteq> []"
proof -
  from assms(2) obtain groups where g: "groupby u df = Inr groups"
    and l: "build_journeys_loop df tc ts cc vc groups = Inr js"
    by (auto simp: build_user_journeys_def split: sum.splits)
  have "\<not> is_text (r ts)" if "(uid, rs) \<in> set groups" and "r \<in> set rs" for uid rs r
  proof -
    have "rs = filter (\<lambda>r. r u = uid) (rows df)" using groupby_rows[OF g that(1)] .
    then have "r \<in> set (rows df)" using that(2) by simp
    then show ?thesis by (rule timestamps_parse_rows[OF assms(1)])
  qed
  then have "sorted (timestamps j)"
    using build_journeys_loop_sorted[OF l assms(3)] by blast
  then show ?thesis using build_user_journeys_props[OF assms(2,3)] by simp
qed

lemma cell_key_inj: "cell_key a = cell_key b \<Longrightarrow> a = b"
proof -
  have "inj (of_char :: char \<Rightarrow> nat)" by (simp add: inj_on_def)
  then have "\<And>s t. map (of_char :: char \<Rightarrow> nat) s = map of_char t \<Longrightarrow> s = t"
    by simp
  then show "cell_key a = cell_key b \<Longrightarrow> a = b"
    by (cases a; cases b) auto
qed

lemma sorted_events_by_user:
  assumes "timestamps_parse ts df" and "sort_values [u, ts] df = Inr df2"
    and "groupby u df2 = Inr groups" and "(k, rs) \<in> set groups"
  shows "sorted (map (\<lambda>r. num_of (r ts)) rs) \<and> rs \<noteq> []"
proof -
  let ?t = "sort_key (\<lambda>r. cell_key (r ts)) (rows df)"
  have r2: "rows df2 = sort_key (\<lambda>r. cell_key (r u)) ?t"
    using assms(2) by (auto simp: sort_values_def split: list.splits)
  have rs: "rs = filter (\<lambda>r. r u = k) (rows df2)" using groupby_rows[OF assms(3,4)] .
  have "(\<lambda>r. r u = k) = (\<lambda>r. cell_key (r u) = cell_key k)"
    using cell_key_inj by auto
  then have "rs = filter (\<lambda>r. cell_key (r u) = cell_key k) ?t"
    unfolding rs r2 by (simp only: sort_key_stable)
  moreover have "sorted (map (\<lambda>r. cell_key (r ts)) ?t)" by (rule sorted_sort_key)
  ultimately have "sorted (map (\<lambda>r. cell_key (r ts)) rs)"
    by (simp add: sorted_filter)
  moreover have "\<And>r. r \<in> set rs \<Longrightarrow> \<not> is_text (r ts)"
    using rs r2 timestamps_parse_rows[OF assms(1)] by auto
  ultimately have s: "sorted (map (\<lambda>r. num_of (r ts)) rs)" by (rule sorted_num_of)
  have "k \<in> set (map (\<lambda>r. r u) (rows df2))"
    using assms(3,4) by (auto simp: groupby_def split: if_splits)
  then have "rs \<noteq> []" unfolding rs by (auto simp: filter_empty_conv)
  then show ?thesis using s by simp
qed

end
